theory Spec2Isabelle
  imports
    Main
    "HOL-Library.Char_ord"
    "HOL-Library.List_Lexorder"
    "HOL-Library.Product_Lexorder"
    "HOL-Library.Multiset"
begin

section \<open>On This Day in Music: a model of \<open>app.py\<close>\<close>

text \<open>
  The program is one Flask view, \<open>index\<close>, and one helper, \<open>search_releases_for_date\<close>.
  The view reads three form fields, validates them, asks the MusicBrainz search for every
  year of a range, builds one record for each release returned, sorts the records and hands
  them to the page template.

  Conventions of the model:
  \<^item> A Python \<open>str\<close> is a \<open>string\<close>, the list of the bytes of its UTF-8 encoding. The form
    fields are taken to be ASCII, so that a position counted in bytes is the position counted
    in characters; the order of two strings byte by byte is their order code point by code
    point.
  \<^item> A Python \<open>int\<close> is an \<open>int\<close>. The interpreter's limit on the number of digits of a
    decimal conversion is left out.
  \<^item> A value decoded from JSON is a \<open>json\<close>; \<open>JNull\<close> is Python's \<open>None\<close>. Floating-point
    numbers are left out.
  \<^item> The clock and the network are arguments of the view: the current year, today's date
    and a function from the parameters of a search request to what the request does.
  \<^item> An exception that the view does not catch ends the request; it is a value of type
    \<open>abort\<close> returned in place of the page.
  \<^item> \<open>time.sleep\<close> is not modelled.
\<close>

subsection \<open>Strings and integers of the Python library\<close>

definition is_space :: "char \<Rightarrow> bool" where
  "is_space c =
     (let n = (of_char c :: nat) in (9 \<le> n \<and> n \<le> 13) \<or> (28 \<le> n \<and> n \<le> 32))"

text \<open>\<open>str.strip()\<close> with no argument.\<close>

definition strip :: "string \<Rightarrow> string" where
  "strip s = rev (dropWhile is_space (rev (dropWhile is_space s)))"

definition is_digit :: "char \<Rightarrow> bool" where
  "is_digit c = (let n = (of_char c :: nat) in 48 \<le> n \<and> n \<le> 57)"

definition digit_val :: "char \<Rightarrow> nat" where
  "digit_val c = of_char c - 48"

definition digit_char :: "nat \<Rightarrow> char" where
  "digit_char n = char_of (48 + n)"

text \<open>
  The digits of \<open>int(s)\<close> in base ten: digits, with single underscores allowed between two
  digits.
\<close>

fun int_body_ok :: "string \<Rightarrow> bool" where
  "int_body_ok [] = False"
| "int_body_ok [c] = is_digit c"
| "int_body_ok (c # d # r) =
     (is_digit c \<and> (if d = CHR ''_'' then int_body_ok r else int_body_ok (d # r)))"

definition digits_value :: "string \<Rightarrow> nat" where
  "digits_value s = foldl (\<lambda>a c. 10 * a + digit_val c) 0 (filter is_digit s)"

text \<open>\<open>int(s)\<close>; \<open>None\<close> stands for \<open>ValueError\<close>.\<close>

definition py_int :: "string \<Rightarrow> int option" where
  "py_int s =
     (case strip s of
        [] \<Rightarrow> None
      | c # r \<Rightarrow>
          if c = CHR ''-'' then
            (if int_body_ok r then Some (- int (digits_value r)) else None)
          else if c = CHR ''+'' then
            (if int_body_ok r then Some (int (digits_value r)) else None)
          else
            (if int_body_ok (c # r) then Some (int (digits_value (c # r))) else None))"

function str_nat :: "nat \<Rightarrow> string" where
  "str_nat n = (if n < 10 then [digit_char n] else str_nat (n div 10) @ [digit_char (n mod 10)])"
  by pat_completeness auto
termination
  by (relation "measure id") auto

declare str_nat.simps [simp del]

text \<open>\<open>str(i)\<close>, which is also what \<open>f"{i}"\<close> writes.\<close>

definition py_str :: "int \<Rightarrow> string" where
  "py_str i = (if i < 0 then CHR ''-'' # str_nat (nat (- i)) else str_nat (nat i))"

subsection \<open>Dates: \<open>datetime.strptime\<close> and \<open>strftime\<close>\<close>

text \<open>
  \<open>datetime.strptime(s, "%Y-%m-%d")\<close> matches \<open>s\<close> against the pattern
  \<^verbatim>\<open>(?P<Y>\d\d\d\d)-(?P<m>1[0-2]|0[1-9]|[1-9])-(?P<d>3[0-1]|[1-2]\d|0[1-9]|[1-9]| [1-9])\<close>,
  refuses input left over after the match, and builds the date, which fails when the year
  is 0 or the day does not exist in the month. The alternatives are tried in order; an
  earlier alternative that matches is never given up, since what would follow a shorter
  match is a digit where the pattern wants \<open>-\<close> or the end.
\<close>

definition is_digit19 :: "char \<Rightarrow> bool" where
  "is_digit19 c = (let n = (of_char c :: nat) in 49 \<le> n \<and> n \<le> 57)"

fun match_Y :: "string \<Rightarrow> (nat \<times> string) option" where
  "match_Y (a # b # c # d # r) =
     (if is_digit a \<and> is_digit b \<and> is_digit c \<and> is_digit d
      then Some (digits_value [a, b, c, d], r) else None)"
| "match_Y _ = None"

fun match_m :: "string \<Rightarrow> (nat \<times> string) option" where
  "match_m (a # b # r) =
     (if a = CHR ''1'' \<and> (b = CHR ''0'' \<or> b = CHR ''1'' \<or> b = CHR ''2'')
        then Some (digits_value [a, b], r)
      else if a = CHR ''0'' \<and> is_digit19 b then Some (digit_val b, r)
      else if is_digit19 a then Some (digit_val a, b # r)
      else None)"
| "match_m [a] = (if is_digit19 a then Some (digit_val a, []) else None)"
| "match_m [] = None"

fun match_d :: "string \<Rightarrow> (nat \<times> string) option" where
  "match_d (a # b # r) =
     (if a = CHR ''3'' \<and> (b = CHR ''0'' \<or> b = CHR ''1'') then Some (digits_value [a, b], r)
      else if (a = CHR ''1'' \<or> a = CHR ''2'') \<and> is_digit b then Some (digits_value [a, b], r)
      else if a = CHR ''0'' \<and> is_digit19 b then Some (digit_val b, r)
      else if is_digit19 a then Some (digit_val a, b # r)
      else if a = CHR '' '' \<and> is_digit19 b then Some (digit_val b, r)
      else None)"
| "match_d [a] = (if is_digit19 a then Some (digit_val a, []) else None)"
| "match_d [] = None"

fun match_dash :: "string \<Rightarrow> string option" where
  "match_dash (a # r) = (if a = CHR ''-'' then Some r else None)"
| "match_dash [] = None"

definition is_leap :: "nat \<Rightarrow> bool" where
  "is_leap y = (y mod 4 = 0 \<and> (y mod 100 \<noteq> 0 \<or> y mod 400 = 0))"

definition days_in_month :: "nat \<Rightarrow> nat \<Rightarrow> nat" where
  "days_in_month y m =
     (if m = 2 then (if is_leap y then 29 else 28)
      else if m = 4 \<or> m = 6 \<or> m = 9 \<or> m = 11 then 30 else 31)"

text \<open>The year, month and day of the parsed date; \<open>None\<close> stands for \<open>ValueError\<close>.\<close>

definition strptime :: "string \<Rightarrow> (nat \<times> nat \<times> nat) option" where
  "strptime s =
     (case match_Y s of
        None \<Rightarrow> None
      | Some (y, r1) \<Rightarrow>
     (case match_dash r1 of
        None \<Rightarrow> None
      | Some r2 \<Rightarrow>
     (case match_m r2 of
        None \<Rightarrow> None
      | Some (m, r3) \<Rightarrow>
     (case match_dash r3 of
        None \<Rightarrow> None
      | Some r4 \<Rightarrow>
     (case match_d r4 of
        None \<Rightarrow> None
      | Some (d, r5) \<Rightarrow>
          if r5 = [] \<and> 1 \<le> y \<and> d \<le> days_in_month y m then Some (y, m, d) else None)))))"

definition month_names :: "string list" where
  "month_names =
     [''January'', ''February'', ''March'', ''April'', ''May'', ''June'', ''July'',
      ''August'', ''September'', ''October'', ''November'', ''December'']"

text \<open>\<open>strftime("%B %d")\<close> of a date with month \<open>m\<close> and day \<open>d\<close>, in the C locale.\<close>

definition two_digits :: "nat \<Rightarrow> string" where
  "two_digits d = [digit_char (d div 10), digit_char (d mod 10)]"

definition strftime_B_d :: "nat \<Rightarrow> nat \<Rightarrow> string" where
  "strftime_B_d m d = month_names ! (m - 1) @ '' '' @ two_digits d"

subsection \<open>Values decoded from JSON\<close>

datatype json =
    JNull
  | JBool bool
  | JNum int
  | JStr string
  | JArr "json list"
  | JObj "(string \<times> json) list"

text \<open>
  An object is the association list of the \<open>dict\<close> it decodes to; \<open>map_of\<close> reads it.
  \<open>truthy\<close> is the truth value Python gives a value in \<open>if v\<close>, \<open>v or w\<close> and \<open>v and w\<close>.
\<close>

fun truthy :: "json \<Rightarrow> bool" where
  "truthy JNull = False"
| "truthy (JBool b) = b"
| "truthy (JNum n) = (n \<noteq> 0)"
| "truthy (JStr s) = (s \<noteq> [])"
| "truthy (JArr xs) = (xs \<noteq> [])"
| "truthy (JObj kv) = (kv \<noteq> [])"

fun type_name :: "json \<Rightarrow> string" where
  "type_name JNull = ''NoneType''"
| "type_name (JBool b) = ''bool''"
| "type_name (JNum n) = ''int''"
| "type_name (JStr s) = ''str''"
| "type_name (JArr xs) = ''list''"
| "type_name (JObj kv) = ''dict''"

text \<open>\<open>d.get(k)\<close> on a \<open>dict\<close>: the value, or \<open>None\<close> for a missing key.\<close>

definition dict_get :: "(string \<times> json) list \<Rightarrow> string \<Rightarrow> json" where
  "dict_get kv k = (case map_of kv k of Some v \<Rightarrow> v | None \<Rightarrow> JNull)"

text \<open>\<open>t in s\<close> on two strings.\<close>

fun has_substring :: "string \<Rightarrow> string \<Rightarrow> bool" where
  "has_substring t [] = (t = [])"
| "has_substring t (c # s) = (take (length t) (c # s) = t \<or> has_substring t s)"

text \<open>
  Exceptions that nothing in the view catches. \<open>Out_of_model\<close> is not an exception: it marks
  the inputs on which Python converts or orders values in a way this model does not follow
  (the text of a list or a dict, the order of sort keys that are not strings).
\<close>

datatype abort = TypeError | AttributeError | Out_of_model

text \<open>The values a \<open>for\<close> loop over \<open>v\<close> visits.\<close>

fun iter_json :: "json \<Rightarrow> abort + json list" where
  "iter_json (JArr xs) = Inr xs"
| "iter_json (JObj kv) = Inr (map (\<lambda>(k, v). JStr k) kv)"
| "iter_json (JStr s) = Inr (map (\<lambda>c. JStr [c]) s)"
| "iter_json _ = Inl TypeError"

subsection \<open>The search request\<close>

type_synonym params = "(string \<times> string) list"

text \<open>
  What one \<open>GET\<close> on the search endpoint does, as the helper sees it: \<open>raise_for_status\<close>
  raises \<open>requests.HTTPError\<close>, or another exception is raised (by the transport, or by
  \<open>resp.json()\<close>), each with the text \<open>str(e)\<close>; or the body decodes to a value.
\<close>

datatype response = Http_error string | Other_error string | Body json

datatype failure = HTTPError string | Exception string

definition search_params :: "int \<Rightarrow> string \<Rightarrow> int \<Rightarrow> params" where
  "search_params yr mm_dd lim =
     [(''query'', ''date:'' @ py_str yr @ ''-'' @ mm_dd),
      (''fmt'', ''json''),
      (''limit'', py_str lim)]"

definition no_attribute_get :: "json \<Rightarrow> string" where
  "no_attribute_get v =
     [CHR 0x27] @ type_name v @ [CHR 0x27] @ '' object has no attribute ''
       @ [CHR 0x27] @ ''get'' @ [CHR 0x27]"

definition search_releases_for_date ::
  "(params \<Rightarrow> response) \<Rightarrow> int \<Rightarrow> string \<Rightarrow> int \<Rightarrow> failure + json" where
  "search_releases_for_date nt yr mm_dd lim =
     (case nt (search_params yr mm_dd lim) of
        Http_error e \<Rightarrow> Inl (HTTPError e)
      | Other_error e \<Rightarrow> Inl (Exception e)
      | Body data \<Rightarrow>
          (case data of
             JObj kv \<Rightarrow> Inr (case map_of kv ''releases'' of Some v \<Rightarrow> v | None \<Rightarrow> JArr [])
           | _ \<Rightarrow> Inl (Exception (no_attribute_get data))))"

subsection \<open>Release records\<close>

record release =
  year :: int
  title :: json
  artist :: json
  date :: json
  url :: "string option"

text \<open>
  The artist of an entry, from \<open>ac = r.get("artist-credit") or []\<close>:
  \<^verbatim>\<open>if ac and isinstance(ac, list) and "name" in ac[0]: artist = ac[0]["name"]\<close>.
  \<open>"name" in x\<close> is a key test on a dict, a substring test on a string, an element test on
  a list and a \<open>TypeError\<close> on anything else; \<open>x["name"]\<close> is a \<open>TypeError\<close> on a string and
  on a list.
\<close>

definition artist_of :: "json \<Rightarrow> abort + json" where
  "artist_of ac =
     (case ac of
        JArr (x # _) \<Rightarrow>
          (case x of
             JObj d \<Rightarrow> (case map_of d ''name'' of Some v \<Rightarrow> Inr v | None \<Rightarrow> Inr JNull)
           | JStr s \<Rightarrow> if has_substring ''name'' s then Inl TypeError else Inr JNull
           | JArr ys \<Rightarrow> if JStr ''name'' \<in> set ys then Inl TypeError else Inr JNull
           | _ \<Rightarrow> Inl TypeError)
      | _ \<Rightarrow> Inr JNull)"

text \<open>\<open>f"https://musicbrainz.org/release/{mbid}" if mbid else None\<close>.\<close>

definition url_of :: "json \<Rightarrow> abort + string option" where
  "url_of mbid =
     (if truthy mbid then
        (case mbid of
           JStr s \<Rightarrow> Inr (Some (''https://musicbrainz.org/release/'' @ s))
         | JNum n \<Rightarrow> Inr (Some (''https://musicbrainz.org/release/'' @ py_str n))
         | JBool b \<Rightarrow> Inr (Some (''https://musicbrainz.org/release/'' @ ''True''))
         | _ \<Rightarrow> Inl Out_of_model)
      else Inr None)"

text \<open>The body of \<open>for r in releases\<close>: the record built from one entry in loop year \<open>yr\<close>.\<close>

definition make_release :: "int \<Rightarrow> json \<Rightarrow> abort + release" where
  "make_release yr r =
     (case r of
        JObj kv \<Rightarrow>
          (let ttl = dict_get kv ''title'';
               dt = dict_get kv ''date'';
               ac = (if truthy (dict_get kv ''artist-credit'')
                     then dict_get kv ''artist-credit'' else JArr [])
           in case artist_of ac of
                Inl a \<Rightarrow> Inl a
              | Inr art \<Rightarrow>
                  (case url_of (dict_get kv ''id'') of
                     Inl a \<Rightarrow> Inl a
                   | Inr u \<Rightarrow>
                       Inr \<lparr>year = yr, title = ttl, artist = art, date = dt, url = u\<rparr>))
      | _ \<Rightarrow> Inl AttributeError)"

fun add_releases :: "int \<Rightarrow> json list \<Rightarrow> release list \<Rightarrow> abort + release list" where
  "add_releases yr [] res = Inr res"
| "add_releases yr (r # rs) res =
     (case make_release yr r of
        Inl a \<Rightarrow> Inl a
      | Inr x \<Rightarrow> add_releases yr rs (res @ [x]))"

subsection \<open>The loop over the years\<close>

definition http_error_msg :: "int \<Rightarrow> string \<Rightarrow> string" where
  "http_error_msg yr e = ''HTTP error for year '' @ py_str yr @ '': '' @ e"

definition other_error_msg :: "int \<Rightarrow> string \<Rightarrow> string" where
  "other_error_msg yr e = ''Error for year '' @ py_str yr @ '': '' @ e"

text \<open>
  \<open>for year in range(start_year, end_year + 1)\<close>, on the list of the years still to visit.
  The result is the list of the requests sent, in order, and either the abort or the
  records collected and the error message.
\<close>

fun fetch_years ::
  "(params \<Rightarrow> response) \<Rightarrow> string \<Rightarrow> int list \<Rightarrow> release list \<Rightarrow> string option
     \<Rightarrow> params list \<times> (abort + release list \<times> string option)" where
  "fetch_years nt mm_dd [] res err = ([], Inr (res, err))"
| "fetch_years nt mm_dd (y # ys) res err =
     (case search_releases_for_date nt y mm_dd 50 of
        Inl (HTTPError e) \<Rightarrow>
          ([search_params y mm_dd 50], Inr (res, Some (http_error_msg y e)))
      | Inl (Exception e) \<Rightarrow>
          ([search_params y mm_dd 50], Inr (res, Some (other_error_msg y e)))
      | Inr releases \<Rightarrow>
          (case iter_json releases of
             Inl a \<Rightarrow> ([search_params y mm_dd 50], Inl a)
           | Inr items \<Rightarrow>
               (case add_releases y items res of
                  Inl a \<Rightarrow> ([search_params y mm_dd 50], Inl a)
                | Inr res' \<Rightarrow>
                    (case fetch_years nt mm_dd ys res' err of
                       (calls, out) \<Rightarrow> (search_params y mm_dd 50 # calls, out)))))"

subsection \<open>Sorting\<close>

text \<open>
  \<open>results.sort(key=lambda x: (x.year, x.artist or "", x.title or ""))\<close>, run when the list
  is not empty. Where every key is made of the year and two strings, tuples are ordered
  component by component and strings code point by code point, and the sort is stable.
\<close>

definition or_empty :: "json \<Rightarrow> json" where
  "or_empty v = (if truthy v then v else JStr [])"

fun is_str :: "json \<Rightarrow> bool" where
  "is_str (JStr s) = True"
| "is_str _ = False"

fun text_of :: "json \<Rightarrow> string" where
  "text_of (JStr s) = s"
| "text_of _ = []"

definition sortable :: "release \<Rightarrow> bool" where
  "sortable x = (is_str (or_empty (artist x)) \<and> is_str (or_empty (title x)))"

definition release_key :: "release \<Rightarrow> int \<times> string \<times> string" where
  "release_key x = (year x, text_of (or_empty (artist x)), text_of (or_empty (title x)))"

definition sort_results :: "release list \<Rightarrow> abort + release list" where
  "sort_results rs =
     (if rs = [] then Inr rs
      else if list_all sortable rs then Inr (sort_key release_key rs)
      else Inl Out_of_model)"

subsection \<open>The view\<close>

datatype http_method = GET | POST

record request =
  req_method :: http_method
  form :: "(string \<times> string) list"

record env =
  now_year :: int
  now_date :: string
  net :: "params \<Rightarrow> response"

text \<open>The keyword arguments of \<open>render_template_string\<close>.\<close>

record page =
  error :: "string option"
  results :: "release list option"
  date_value :: string
  start_year :: int
  end_year :: int
  pretty_date :: string
  current_year :: int

text \<open>\<open>request.form.get(k, "")\<close>.\<close>

definition form_get :: "(string \<times> string) list \<Rightarrow> string \<Rightarrow> string" where
  "form_get f k = (case map_of f k of Some v \<Rightarrow> v | None \<Rightarrow> [])"

definition MAX_YEARS_PER_REQUEST :: int where
  "MAX_YEARS_PER_REQUEST = 25"

text \<open>\<open>(error + " | " if error else "") + msg\<close>, where \<open>error\<close> is \<open>None\<close> or a string.\<close>

definition append_error :: "string option \<Rightarrow> string \<Rightarrow> string option" where
  "append_error err msg =
     (case err of
        None \<Rightarrow> Some msg
      | Some e \<Rightarrow> Some ((if e \<noteq> [] then e @ '' | '' else []) @ msg))"

definition truthy_error :: "string option \<Rightarrow> bool" where
  "truthy_error err = (case err of None \<Rightarrow> False | Some e \<Rightarrow> e \<noteq> [])"

text \<open>Lines 197 to 203: the error, \<open>mm_dd\<close> and \<open>pretty_date\<close> after the date is parsed.\<close>

definition parse_date :: "string \<Rightarrow> string option \<times> string option \<times> string" where
  "parse_date dv =
     (case strptime dv of
        Some (y, m, d) \<Rightarrow> (None, Some (drop 5 dv), strftime_B_d m d)
      | None \<Rightarrow> (Some ''Invalid date. Please use the date picker.'', None, []))"

text \<open>Lines 206 to 214: the error, \<open>start_year\<close> and \<open>end_year\<close> after the years are parsed.\<close>

definition parse_years ::
  "int \<Rightarrow> string option \<Rightarrow> string \<Rightarrow> string \<Rightarrow> string option \<times> int \<times> int" where
  "parse_years cy err start_str end_str =
     (case (if start_str \<noteq> [] then py_int start_str else Some 1990) of
        None \<Rightarrow> (append_error err ''Start/end year must be numbers.'', 1990, cy)
      | Some sy \<Rightarrow>
          (case (if end_str \<noteq> [] then py_int end_str else Some cy) of
             None \<Rightarrow> (append_error err ''Start/end year must be numbers.'', 1990, cy)
           | Some ey \<Rightarrow> if ey < sy then (err, ey, sy) else (err, sy, ey)))"

definition en_dash :: string where
  "en_dash = [CHR 0xE2, CHR 0x80, CHR 0x93]"

definition clamp_msg :: "int \<Rightarrow> int \<Rightarrow> int \<Rightarrow> int \<Rightarrow> string" where
  "clamp_msg year_span sy ey cy =
     ''Year range too large ('' @ py_str year_span @ '' years). ''
       @ ''Showing only '' @ py_str sy @ en_dash @ py_str ey @ ''. ''
       @ ''Try smaller chunks like 1990'' @ en_dash @ ''2010, then 2011'' @ en_dash
       @ py_str cy @ ''.''"

text \<open>Lines 218 to 228: the error and \<open>end_year\<close> after the range is clamped.\<close>

definition clamp_years :: "int \<Rightarrow> string option \<Rightarrow> int \<Rightarrow> int \<Rightarrow> string option \<times> int" where
  "clamp_years cy err sy ey =
     (let year_span = ey - sy + 1 in
      if year_span > MAX_YEARS_PER_REQUEST then
        (let ey' = (if sy + MAX_YEARS_PER_REQUEST - 1 > cy then cy
                    else sy + MAX_YEARS_PER_REQUEST - 1)
         in (append_error err (clamp_msg year_span sy ey' cy), ey'))
      else (err, ey))"

text \<open>
  The view. Its result is the list of the search requests it sent and either the abort or
  the page it renders.
\<close>

definition index :: "env \<Rightarrow> request \<Rightarrow> params list \<times> (abort + page)" where
  "index ev rq =
     (case req_method rq of
        GET \<Rightarrow>
          ([], Inr \<lparr>error = None, results = None, date_value = now_date ev,
                    start_year = 1990, end_year = now_year ev, pretty_date = [],
                    current_year = now_year ev\<rparr>)
      | POST \<Rightarrow>
          (let dv = strip (form_get (form rq) ''date'');
               start_str = strip (form_get (form rq) ''start_year'');
               end_str = strip (form_get (form rq) ''end_year'')
           in case parse_date dv of (e1, mm_dd, pd) \<Rightarrow>
              case parse_years (now_year ev) e1 start_str end_str of (e2, sy, ey) \<Rightarrow>
              (let unfetched =
                     ([], Inr \<lparr>error = e2, results = None, date_value = dv,
                               start_year = sy, end_year = ey, pretty_date = pd,
                               current_year = now_year ev\<rparr>)
               in case mm_dd of
                    None \<Rightarrow> unfetched
                  | Some md \<Rightarrow>
                      if truthy_error e2 \<or> md = [] then unfetched
                      else
                        (case clamp_years (now_year ev) e2 sy ey of (e3, ey') \<Rightarrow>
                         case fetch_years (net ev) md [sy..ey'] [] e3 of (calls, out) \<Rightarrow>
                         (case out of
                            Inl a \<Rightarrow> (calls, Inl a)
                          | Inr (rs, e4) \<Rightarrow>
                              (case sort_results rs of
                                 Inl a \<Rightarrow> (calls, Inl a)
                               | Inr rs' \<Rightarrow>
                                   (calls, Inr \<lparr>error = e4, results = Some rs',
                                                date_value = dv, start_year = sy,
                                                end_year = ey', pretty_date = pd,
                                                current_year = now_year ev\<rparr>)))))))"

text \<open>What the template shows: lines 111, 116 and 120 of the source.\<close>

definition shows_error :: "page \<Rightarrow> bool" where
  "shows_error pg = truthy_error (error pg)"

definition shows_summary :: "page \<Rightarrow> bool" where
  "shows_summary pg = (results pg \<noteq> None)"

definition shows_table :: "page \<Rightarrow> bool" where
  "shows_table pg = (case results pg of Some (r # rs) \<Rightarrow> True | _ \<Rightarrow> False)"

subsection \<open>Vocabulary of the statements\<close>

text \<open>
  The records one year contributes, when its request succeeds and every entry of the
  response yields a record; the records the loop has collected when it stops, which are
  those of the years before the first year that contributes none; and the message the loop
  stores for a failed request.
\<close>

definition records_of_year :: "(params \<Rightarrow> response) \<Rightarrow> string \<Rightarrow> int \<Rightarrow> release list option" where
  "records_of_year nt mm_dd y =
     (case search_releases_for_date nt y mm_dd 50 of
        Inl f \<Rightarrow> None
      | Inr releases \<Rightarrow>
          (case iter_json releases of
             Inl a \<Rightarrow> None
           | Inr items \<Rightarrow>
               (case add_releases y items [] of Inl a \<Rightarrow> None | Inr rs \<Rightarrow> Some rs)))"

fun collected :: "(params \<Rightarrow> response) \<Rightarrow> string \<Rightarrow> int list \<Rightarrow> release list" where
  "collected nt mm_dd [] = []"
| "collected nt mm_dd (y # ys) =
     (case records_of_year nt mm_dd y of
        None \<Rightarrow> []
      | Some rs \<Rightarrow> rs @ collected nt mm_dd ys)"

definition failure_msg :: "int \<Rightarrow> failure \<Rightarrow> string" where
  "failure_msg y f =
     (case f of HTTPError e \<Rightarrow> http_error_msg y e | Exception e \<Rightarrow> other_error_msg y e)"

text \<open>The three form fields as the view reads them, and the records of a year or none.\<close>

definition date_field :: "request \<Rightarrow> string" where
  "date_field rq = strip (form_get (form rq) ''date'')"

definition start_field :: "request \<Rightarrow> string" where
  "start_field rq = strip (form_get (form rq) ''start_year'')"

definition end_field :: "request \<Rightarrow> string" where
  "end_field rq = strip (form_get (form rq) ''end_year'')"

definition year_records :: "(params \<Rightarrow> response) \<Rightarrow> string \<Rightarrow> int \<Rightarrow> release list" where
  "year_records nt mm_dd y = (case records_of_year nt mm_dd y of Some rs \<Rightarrow> rs | None \<Rightarrow> [])"

text \<open>
  The value of a year field: the integer it holds, or the default when it is blank;
  \<open>None\<close> when it is not blank and not an integer. The two validation messages.
\<close>

definition field_year :: "int \<Rightarrow> string \<Rightarrow> int option" where
  "field_year dflt s = (if s \<noteq> [] then py_int s else Some dflt)"

definition invalid_date_msg :: string where
  "invalid_date_msg = ''Invalid date. Please use the date picker.''"

definition year_error_msg :: string where
  "year_error_msg = ''Start/end year must be numbers.''"

subsection \<open>A worked example\<close>

text \<open>
  The date 22 November 2019 over the years 2018 to 2020. The search answers with two
  releases for 2018, the second without artist or identifier, and one for 2019; the request
  for 2020 fails with status 503.
\<close>

definition entry_2018 :: json where
  "entry_2018 =
     JObj [(''id'', JStr ''b1a9c0e9''), (''title'', JStr ''Pablo Honey''),
           (''date'', JStr ''2018-11-22''),
           (''artist-credit'', JArr [JObj [(''name'', JStr ''Radiohead'')]])]"

definition entry_anon :: json where
  "entry_anon = JObj [(''title'', JStr ''Untitled''), (''artist-credit'', JArr [])]"

definition entry_2019 :: json where
  "entry_2019 =
     JObj [(''title'', JStr ''25''), (''date'', JStr ''2019''),
           (''artist-credit'', JArr [JObj [(''name'', JStr ''Adele'')]])]"

definition example_net :: "params \<Rightarrow> response" where
  "example_net p =
     (if map_of p ''query'' = Some ''date:2018-11-22''
        then Body (JObj [(''releases'', JArr [entry_2018, entry_anon])])
      else if map_of p ''query'' = Some ''date:2019-11-22''
        then Body (JObj [(''releases'', JArr [entry_2019])])
      else Http_error ''503 Server Error'')"

definition example_env :: env where
  "example_env = \<lparr>now_year = 2026, now_date = ''2026-11-04'', net = example_net\<rparr>"

definition example_request :: request where
  "example_request =
     \<lparr>req_method = POST,
      form = [(''date'', ''2019-11-22''), (''start_year'', ''2018''), (''end_year'', ''2020'')]\<rparr>"

definition record_2018 :: release where
  "record_2018 =
     \<lparr>year = 2018, title = JStr ''Pablo Honey'', artist = JStr ''Radiohead'',
      date = JStr ''2018-11-22'', url = Some ''https://musicbrainz.org/release/b1a9c0e9''\<rparr>"

definition record_anon :: release where
  "record_anon =
     \<lparr>year = 2018, title = JStr ''Untitled'', artist = JNull, date = JNull, url = None\<rparr>"

definition record_2019 :: release where
  "record_2019 =
     \<lparr>year = 2019, title = JStr ''25'', artist = JStr ''Adele'',
      date = JStr ''2019'', url = None\<rparr>"

definition example_page :: page where
  "example_page =
     \<lparr>error = Some ''HTTP error for year 2020: 503 Server Error'',
      results = Some [record_anon, record_2018, record_2019],
      date_value = ''2019-11-22'', start_year = 2018, end_year = 2020,
      pretty_date = ''November 22'', current_year = 2026\<rparr>"

text \<open>
  More inputs: a network on which every request fails, one on which every year has no
  release, and submissions with a span of 31 years, an impossible date, a year field that
  is not a number, the two years in reverse order, and no year at all.
\<close>

definition failing_net :: "params \<Rightarrow> response" where
  "failing_net p = Http_error ''503 Server Error''"

definition quiet_net :: "params \<Rightarrow> response" where
  "quiet_net p = Body (JObj [(''releases'', JArr [])])"

definition failing_env :: env where
  "failing_env = \<lparr>now_year = 2026, now_date = ''2026-11-04'', net = failing_net\<rparr>"

definition quiet_env :: env where
  "quiet_env = \<lparr>now_year = 2026, now_date = ''2026-11-04'', net = quiet_net\<rparr>"

definition wide_request :: request where
  "wide_request =
     \<lparr>req_method = POST,
      form = [(''date'', ''2019-11-22''), (''start_year'', ''1990''), (''end_year'', ''2020'')]\<rparr>"

definition bad_date_request :: request where
  "bad_date_request =
     \<lparr>req_method = POST,
      form = [(''date'', ''2019-02-30''), (''start_year'', ''1900''), (''end_year'', ''2000'')]\<rparr>"

definition bad_year_request :: request where
  "bad_year_request =
     \<lparr>req_method = POST,
      form = [(''date'', ''2019-11-22''), (''start_year'', ''''), (''end_year'', ''abc'')]\<rparr>"

definition swapped_request :: request where
  "swapped_request =
     \<lparr>req_method = POST,
      form = [(''date'', ''2019-11-22''), (''start_year'', ''2020''), (''end_year'', ''2018'')]\<rparr>"

definition blank_request :: request where
  "blank_request = \<lparr>req_method = POST, form = [(''date'', ''2019-11-22'')]\<rparr>"

section \<open>Properties\<close>

subsection \<open>Dates\<close>

lemma digit_val_19: "is_digit19 c \<Longrightarrow> 1 \<le> digit_val c \<and> digit_val c \<le> 9"
  by (auto simp: is_digit19_def digit_val_def Let_def)

lemma digit_val_09: "is_digit c \<Longrightarrow> digit_val c \<le> 9"
  by (auto simp: is_digit_def digit_val_def Let_def)

lemma is_digit19_is_digit: "is_digit19 c \<Longrightarrow> is_digit c"
  by (auto simp: is_digit19_def is_digit_def Let_def)

lemma digits_value2: "is_digit a \<Longrightarrow> is_digit b \<Longrightarrow> digits_value [a, b] = 10 * digit_val a + digit_val b"
  by (simp add: digits_value_def)

lemma match_m_range:
  assumes "match_m s = Some (m, r)"
  shows "1 \<le> m \<and> m \<le> 12 \<and> length r < length s"
proof (cases s rule: match_m.cases)
  case (1 a b t)
  then show ?thesis using assms
    by (auto simp: digits_value_def digit_val_def is_digit_def is_digit19_def Let_def split: if_splits)
next
  case (2 a)
  then show ?thesis using assms
    by (auto simp: digit_val_def is_digit19_def Let_def split: if_splits)
next
  case 3
  then show ?thesis using assms by simp
qed

lemma match_d_range:
  assumes "match_d s = Some (d, r)"
  shows "1 \<le> d \<and> d \<le> 31 \<and> length r < length s"
proof (cases s rule: match_d.cases)
  case (1 a b t)
  then show ?thesis using assms
    by (auto simp: digits_value_def digit_val_def is_digit_def is_digit19_def Let_def split: if_splits)
next
  case (2 a)
  then show ?thesis using assms
    by (auto simp: digit_val_def is_digit19_def Let_def split: if_splits)
next
  case 3
  then show ?thesis using assms by simp
qed

lemma match_Y_length: "match_Y s = Some (y, r) \<Longrightarrow> length s = length r + 4"
  by (cases s rule: match_Y.cases) (auto split: if_splits)

lemma match_dash_length: "match_dash s = Some r \<Longrightarrow> length s = length r + 1"
  by (cases s) (auto split: if_splits)

lemma strptime_range:
  assumes "strptime dv = Some (y, m, d)"
  shows "1 \<le> m \<and> m \<le> 12 \<and> 1 \<le> d \<and> d \<le> 31 \<and> 8 \<le> length dv"
proof -
  from assms obtain y' r1 r2 m' r3 r4 d' r5 where
    Y: "match_Y dv = Some (y', r1)" and d1: "match_dash r1 = Some r2"
    and M: "match_m r2 = Some (m', r3)" and d2: "match_dash r3 = Some r4"
    and D: "match_d r4 = Some (d', r5)" and e: "m' = m" "d' = d"
    unfolding strptime_def
    by (auto split: option.splits prod.splits if_splits)
  from match_m_range[OF M] match_d_range[OF D] match_Y_length[OF Y]
    match_dash_length[OF d1] match_dash_length[OF d2] e
  show ?thesis by auto
qed

lemma digit_char_0: "char_of (48::nat) = CHR ''0''"
  by code_simp

lemma str_nat_small: "n < 10 \<Longrightarrow> str_nat n = [digit_char n]"
  by (simp add: str_nat.simps)

lemma str_nat_two: "10 \<le> n \<Longrightarrow> n < 100 \<Longrightarrow> str_nat n = [digit_char (n div 10), digit_char (n mod 10)]"
  by (subst str_nat.simps) (simp add: str_nat_small)

lemma two_digits_padded:
  "d < 100 \<Longrightarrow> two_digits d = (if d < 10 then CHR ''0'' # py_str (int d) else py_str (int d))"
  by (auto simp: two_digits_def py_str_def str_nat_small str_nat_two digit_char_def digit_char_0)

lemma length_month_names: "length month_names = 12"
  by (simp add: month_names_def)

lemma strptime_key_nonempty: "strptime dv = Some ymd \<Longrightarrow> drop 5 dv \<noteq> []"
  using strptime_range[of dv "fst ymd" "fst (snd ymd)" "snd (snd ymd)"] by auto

subsection \<open>The loop\<close>

lemma add_releases_acc:
  "add_releases y items acc = Inr rs \<longleftrightarrow> (\<exists>rs'. add_releases y items [] = Inr rs' \<and> rs = acc @ rs')"
proof (induction items arbitrary: acc rs)
  case Nil
  then show ?case by auto
next
  case (Cons r items)
  show ?case
  proof (cases "make_release y r")
    case (Inl a)
    then show ?thesis by simp
  next
    case (Inr x)
    have "add_releases y (r # items) acc = Inr rs \<longleftrightarrow> add_releases y items (acc @ [x]) = Inr rs"
      using Inr by simp
    also have "\<dots> \<longleftrightarrow> (\<exists>rs'. add_releases y items [] = Inr rs' \<and> rs = (acc @ [x]) @ rs')"
      by (rule Cons.IH)
    also have "\<dots> \<longleftrightarrow> (\<exists>rs''. add_releases y items [x] = Inr rs'' \<and> rs = acc @ rs'')"
      using Cons.IH[of "[x]"] by auto
    also have "\<dots> \<longleftrightarrow> (\<exists>rs''. add_releases y (r # items) [] = Inr rs'' \<and> rs = acc @ rs'')"
      using Inr by simp
    finally show ?thesis .
  qed
qed

lemma add_releases_map:
  "add_releases y items [] = Inr rs \<Longrightarrow> map Inr rs = map (make_release y) items"
proof (induction items arbitrary: rs)
  case Nil
  then show ?case by simp
next
  case (Cons r items)
  then obtain x where x: "make_release y r = Inr x" by (cases "make_release y r") auto
  with Cons.prems have "add_releases y items [x] = Inr rs" by simp
  then obtain rs' where rs': "add_releases y items [] = Inr rs'" "rs = [x] @ rs'"
    using add_releases_acc[of y items "[x]" rs] by auto
  with Cons.IH[OF rs'(1)] x show ?case by simp
qed

lemma fetch_years_collected:
  "fetch_years nt md ys acc err = (calls, Inr (rs, e)) \<Longrightarrow> rs = acc @ collected nt md ys"
proof (induction ys arbitrary: acc calls)
  case Nil
  then show ?case by simp
next
  case (Cons y ys)
  show ?case
  proof (cases "search_releases_for_date nt y md 50")
    case (Inl f)
    with Cons.prems show ?thesis
      by (cases f) (auto simp: records_of_year_def)
  next
    case (Inr releases)
    with Cons.prems obtain items where it: "iter_json releases = Inr items"
      by (cases "iter_json releases") auto
    with Inr Cons.prems obtain res' where res': "add_releases y items acc = Inr res'"
      by (cases "add_releases y items acc") auto
    then obtain rs' where rs': "add_releases y items [] = Inr rs'" "res' = acc @ rs'"
      using add_releases_acc by blast
    from Cons.prems Inr it res' obtain calls' where
      "fetch_years nt md ys res' err = (calls', Inr (rs, e))"
      by (auto split: prod.splits)
    from Cons.IH[OF this] have "rs = res' @ collected nt md ys" .
    with rs' Inr it show ?thesis by (simp add: records_of_year_def)
  qed
qed

subsection \<open>The view, case by case\<close>

lemma index_GET:
  "req_method rq = GET \<Longrightarrow>
   index ev rq =
     ([], Inr \<lparr>error = None, results = None, date_value = now_date ev, start_year = 1990,
               end_year = now_year ev, pretty_date = [], current_year = now_year ev\<rparr>)"
  by (simp add: index_def)

lemma parse_date_cases:
  "(strptime dv = None \<and>
      parse_date dv = (Some ''Invalid date. Please use the date picker.'', None, []))
   \<or> (\<exists>y m d. strptime dv = Some (y, m, d) \<and>
        parse_date dv = (None, Some (drop 5 dv), strftime_B_d m d))"
  by (cases "strptime dv") (auto simp: parse_date_def)

lemma parse_years_truthy:
  "parse_years cy e1 ss es = (e2, sy, ey) \<Longrightarrow> truthy_error e1 \<Longrightarrow> truthy_error e2"
  by (auto simp: parse_years_def truthy_error_def append_error_def
      split: option.splits if_splits)

lemma parse_years_None:
  "parse_years cy None ss es = (e2, sy, ey) \<Longrightarrow> \<not> truthy_error e2 \<Longrightarrow> e2 = None"
  by (auto simp: parse_years_def truthy_error_def append_error_def
      split: option.splits if_splits)

lemma index_unfetched:
  assumes "req_method rq = POST"
    and "parse_date (date_field rq) = (e1, mm, pd)"
    and "parse_years (now_year ev) e1 (start_field rq) (end_field rq) = (e2, sy, ey)"
    and "truthy_error e2"
  shows "index ev rq =
     ([], Inr \<lparr>error = e2, results = None, date_value = date_field rq, start_year = sy,
               end_year = ey, pretty_date = pd, current_year = now_year ev\<rparr>)"
  using assms
  by (simp add: index_def date_field_def start_field_def end_field_def Let_def
      split: option.splits)

lemma index_fetched:
  assumes "req_method rq = POST"
    and "strptime (date_field rq) = Some (y, m, d)"
    and "parse_years (now_year ev) None (start_field rq) (end_field rq) = (None, sy, ey)"
    and "clamp_years (now_year ev) None sy ey = (e3, ey')"
    and "fetch_years (net ev) (drop 5 (date_field rq)) [sy..ey'] [] e3 = (calls, out)"
  shows "index ev rq =
     (calls,
      case out of
        Inl a \<Rightarrow> Inl a
      | Inr (rs, e4) \<Rightarrow>
          (case sort_results rs of
             Inl a \<Rightarrow> Inl a
           | Inr rs' \<Rightarrow>
               Inr \<lparr>error = e4, results = Some rs', date_value = date_field rq,
                    start_year = sy, end_year = ey', pretty_date = strftime_B_d m d,
                    current_year = now_year ev\<rparr>))"
proof -
  have pd: "parse_date (date_field rq) = (None, Some (drop 5 (date_field rq)), strftime_B_d m d)"
    using assms(2) by (simp add: parse_date_def)
  have ne: "drop 5 (date_field rq) \<noteq> []"
    using strptime_key_nonempty[OF assms(2)] .
  show ?thesis
    using assms(1,3,4,5) pd ne
    unfolding index_def date_field_def start_field_def end_field_def Let_def
    by (simp add: truthy_error_def split: sum.splits prod.splits)
qed

lemma index_page_cases:
  assumes "index ev rq = (calls, Inr pg)" and "results pg = Some rs"
  shows "\<exists>y m d ey e3 col.
      req_method rq = POST \<and> strptime (date_field rq) = Some (y, m, d)
    \<and> date_value pg = date_field rq \<and> pretty_date pg = strftime_B_d m d
    \<and> current_year pg = now_year ev
    \<and> parse_years (now_year ev) None (start_field rq) (end_field rq) = (None, start_year pg, ey)
    \<and> clamp_years (now_year ev) None (start_year pg) ey = (e3, end_year pg)
    \<and> fetch_years (net ev) (drop 5 (date_field rq)) [start_year pg..end_year pg] [] e3
         = (calls, Inr (col, error pg))
    \<and> sort_results col = Inr rs"
proof (cases "req_method rq")
  case GET
  with assms show ?thesis by (auto simp: index_GET)
next
  case POST
  obtain e1 mm pd where pdt: "parse_date (date_field rq) = (e1, mm, pd)"
    by (cases "parse_date (date_field rq)") auto
  obtain e2 sy ey where py: "parse_years (now_year ev) e1 (start_field rq) (end_field rq) = (e2, sy, ey)"
    by (cases "parse_years (now_year ev) e1 (start_field rq) (end_field rq)") auto
  show ?thesis
  proof (cases "truthy_error e2")
    case True
    from index_unfetched[OF POST pdt py True] assms show ?thesis by auto
  next
    case False
    with parse_years_truthy[OF py] have ne1: "\<not> truthy_error e1" by blast
    with pdt parse_date_cases[of "date_field rq"] obtain y m d where
      st: "strptime (date_field rq) = Some (y, m, d)" and e1: "e1 = None"
      and pd: "pd = strftime_B_d m d"
      by (auto simp: truthy_error_def)
    from py e1 False parse_years_None have e2: "e2 = None" by blast
    obtain e3 ey' where cl: "clamp_years (now_year ev) None sy ey = (e3, ey')"
      by (cases "clamp_years (now_year ev) None sy ey") auto
    obtain calls' out where fy:
      "fetch_years (net ev) (drop 5 (date_field rq)) [sy..ey'] [] e3 = (calls', out)"
      by (cases "fetch_years (net ev) (drop 5 (date_field rq)) [sy..ey'] [] e3") auto
    from index_fetched[OF POST st py[unfolded e1 e2] cl fy] assms
    show ?thesis using POST st py e1 e2 cl fy
      by (auto split: sum.splits prod.splits)
  qed
qed

lemma sort_results_Inr:
  "sort_results col = Inr rs \<Longrightarrow> rs = sort_key release_key col \<and> list_all sortable col"
  by (auto simp: sort_results_def split: if_splits)

lemma fetch_years_calls_ok:
  "\<forall>k\<in>set ys. records_of_year nt md k \<noteq> None \<Longrightarrow>
   fetch_years nt md ys acc err =
     (map (\<lambda>k. search_params k md 50) ys, Inr (acc @ collected nt md ys, err))"
proof (induction ys arbitrary: acc)
  case Nil
  then show ?case by simp
next
  case (Cons y ys)
  from Cons.prems obtain rs where rs: "records_of_year nt md y = Some rs" by auto
  then obtain releases items where
    s: "search_releases_for_date nt y md 50 = Inr releases"
    and it: "iter_json releases = Inr items"
    and ar: "add_releases y items [] = Inr rs"
    by (auto simp: records_of_year_def split: sum.splits)
  from ar have "add_releases y items acc = Inr (acc @ rs)"
    using add_releases_acc[of y items acc "acc @ rs"] by simp
  with s it rs Cons.IH[of "acc @ rs"] Cons.prems show ?case by simp
qed

lemma fetch_years_first_failure:
  assumes "\<forall>k\<in>set bs. \<exists>v. search_releases_for_date nt k md 50 = Inr v"
    and "search_releases_for_date nt y md 50 = Inl f"
    and "fetch_years nt md (bs @ y # as) acc err = (calls, Inr (rs, e))"
  shows "calls = map (\<lambda>k. search_params k md 50) (bs @ [y])
       \<and> rs = acc @ collected nt md bs
       \<and> (\<forall>k\<in>set bs. records_of_year nt md k \<noteq> None)
       \<and> e = Some (failure_msg y f)"
  using assms
proof (induction bs arbitrary: acc calls)
  case Nil
  then show ?case
    by (cases f) (auto simp: failure_msg_def)
next
  case (Cons b bs)
  from Cons.prems(1) obtain releases where
    s: "search_releases_for_date nt b md 50 = Inr releases" by auto
  with Cons.prems(3) obtain items where it: "iter_json releases = Inr items"
    by (cases "iter_json releases") auto
  with s Cons.prems(3) obtain res' where res': "add_releases b items acc = Inr res'"
    by (cases "add_releases b items acc") auto
  then obtain rs' where rs': "add_releases b items [] = Inr rs'" "res' = acc @ rs'"
    using add_releases_acc by blast
  from Cons.prems(3) s it res' obtain calls' where
    c: "fetch_years nt md (bs @ y # as) res' err = (calls', Inr (rs, e))"
    "calls = search_params b md 50 # calls'"
    by (auto split: prod.splits)
  have ry: "records_of_year nt md b = Some rs'"
    using s it rs' by (simp add: records_of_year_def)
  from Cons.IH[OF _ Cons.prems(2) c(1)] Cons.prems(1) c(2) rs'(2) ry
  show ?case by simp
qed

lemma collected_all_ok:
  "\<forall>k\<in>set ys. records_of_year nt md k \<noteq> None \<Longrightarrow>
   collected nt md ys = concat (map (year_records nt md) ys)"
  by (induction ys) (auto simp: year_records_def)

subsection \<open>The worked example, evaluated\<close>

lemma example_params:
  "search_params 2018 ''11-22'' 50 =
     [(''query'', ''date:2018-11-22''), (''fmt'', ''json''), (''limit'', ''50'')]"
  "search_params 2019 ''11-22'' 50 =
     [(''query'', ''date:2019-11-22''), (''fmt'', ''json''), (''limit'', ''50'')]"
  "search_params 2020 ''11-22'' 50 =
     [(''query'', ''date:2020-11-22''), (''fmt'', ''json''), (''limit'', ''50'')]"
  by code_simp+

lemma example_records:
  "make_release 2018 entry_2018 = Inr record_2018"
  "make_release 2018 entry_anon = Inr record_anon"
  "make_release 2019 entry_2019 = Inr record_2019"
  by code_simp+

lemma example_search:
  "search_releases_for_date example_net 2018 ''11-22'' 50 = Inr (JArr [entry_2018, entry_anon])"
  "search_releases_for_date example_net 2019 ''11-22'' 50 = Inr (JArr [entry_2019])"
  "search_releases_for_date example_net 2020 ''11-22'' 50 = Inl (HTTPError ''503 Server Error'')"
  by (simp_all add: search_releases_for_date_def example_params example_net_def)

lemma example_year_records:
  "year_records example_net ''11-22'' 2018 = [record_2018, record_anon]"
  "year_records example_net ''11-22'' 2019 = [record_2019]"
  by (simp_all add: year_records_def records_of_year_def example_search example_records)

lemma example_msg:
  "http_error_msg 2020 ''503 Server Error'' = ''HTTP error for year 2020: 503 Server Error''"
  by code_simp

lemma example_fetch:
  "fetch_years example_net ''11-22'' [2018, 2019, 2020] [] None =
     ([search_params 2018 ''11-22'' 50, search_params 2019 ''11-22'' 50,
       search_params 2020 ''11-22'' 50],
      Inr ([record_2018, record_anon, record_2019],
           Some ''HTTP error for year 2020: 503 Server Error''))"
  by (simp add: example_search example_records example_msg)

lemma example_sort:
  "sort_results [record_2018, record_anon, record_2019] =
     Inr [record_anon, record_2018, record_2019]"
  by code_simp

lemma example_fields:
  "req_method example_request = POST"
  "date_field example_request = ''2019-11-22''"
  "start_field example_request = ''2018''"
  "end_field example_request = ''2020''"
  by (simp_all add: example_request_def) code_simp+

lemma example_date: "strptime ''2019-11-22'' = Some (2019, 11, 22)"
  by code_simp

lemma example_pretty: "strftime_B_d 11 22 = ''November 22''"
  by code_simp

lemma example_years: "parse_years 2026 None ''2018'' ''2020'' = (None, 2018, 2020)"
  by code_simp

lemma example_clamp: "clamp_years 2026 None 2018 2020 = (None, 2020)"
  by (simp add: clamp_years_def MAX_YEARS_PER_REQUEST_def)

lemma example_range: "[2018..2020::int] = [2018, 2019, 2020]" "[2018..2019::int] = [2018, 2019]"
  by code_simp+

lemma example_index:
  "index example_env example_request =
     ([search_params 2018 ''11-22'' 50, search_params 2019 ''11-22'' 50,
       search_params 2020 ''11-22'' 50], Inr example_page)"
proof -
  have e: "now_year example_env = 2026" "net example_env = example_net"
    by (simp_all add: example_env_def)
  have f: "fetch_years (net example_env) (drop 5 (date_field example_request)) [2018..2020] []
      None = ([search_params 2018 ''11-22'' 50, search_params 2019 ''11-22'' 50,
       search_params 2020 ''11-22'' 50],
      Inr ([record_2018, record_anon, record_2019],
           Some ''HTTP error for year 2020: 503 Server Error''))"
    by (simp only: e example_fields example_range example_fetch drop_Suc_Cons drop_0
        numeral_nat One_nat_def) 
  show ?thesis
    using index_fetched[of example_request 2019 11 22 example_env 2018 2020 None 2020, OF _ _ _ _ f]
    by (simp add: example_fields example_date e example_years example_clamp example_sort
        example_pretty example_page_def)
qed

lemma example_page_fields:
  "results example_page = Some [record_anon, record_2018, record_2019]"
  "start_year example_page = 2018" "end_year example_page = 2020"
  "drop 5 (date_value example_page) = ''11-22''"
  "error example_page = Some ''HTTP error for year 2020: 503 Server Error''"
  by (simp_all add: example_page_def)

lemma example_env_fields: "now_year example_env = 2026" "net example_env = example_net"
  by (simp_all add: example_env_def)

subsection \<open>Where a record comes from\<close>

lemma collected_member:
  "x \<in> set (collected nt md ys) \<Longrightarrow> \<exists>y\<in>set ys. x \<in> set (year_records nt md y)"
  by (induction ys) (auto simp: year_records_def split: option.splits)

lemma add_releases_member:
  assumes "add_releases y items [] = Inr rs" and "x \<in> set rs"
  shows "\<exists>r\<in>set items. make_release y r = Inr x"
proof -
  from assms(2) have "Inr x \<in> set (map Inr rs :: (abort + release) list)" by simp
  then have "Inr x \<in> set (map (make_release y) items)"
    using add_releases_map[OF assms(1)] by simp
  then show ?thesis by auto
qed

lemma year_records_member:
  assumes "x \<in> set (year_records nt md y)"
  shows "\<exists>releases items r. search_releases_for_date nt y md 50 = Inr releases
       \<and> iter_json releases = Inr items \<and> r \<in> set items \<and> make_release y r = Inr x"
proof -
  from assms obtain rs where rs: "records_of_year nt md y = Some rs" "x \<in> set rs"
    by (cases "records_of_year nt md y") (auto simp: year_records_def)
  then obtain releases items where
    "search_releases_for_date nt y md 50 = Inr releases" "iter_json releases = Inr items"
    "add_releases y items [] = Inr rs"
    by (auto simp: records_of_year_def split: sum.splits)
  with add_releases_member[OF this(3) rs(2)] show ?thesis by blast
qed

lemma url_of_cases:
  assumes "url_of v = Inr u"
  shows "(u = None \<longleftrightarrow> \<not> truthy v)
       \<and> (\<forall>s. v = JStr s \<longrightarrow> s \<noteq> [] \<longrightarrow> u = Some (''https://musicbrainz.org/release/'' @ s))"
  using assms by (cases v) (auto simp: url_of_def split: if_splits)

lemma artist_of_cases:
  assumes "artist_of (if truthy v then v else JArr []) = Inr a"
  shows "a = (case v of JArr (JObj d # _) \<Rightarrow> dict_get d ''name'' | _ \<Rightarrow> JNull)"
proof (cases v)
  case (JArr xs)
  show ?thesis
  proof (cases xs)
    case Nil
    with JArr assms show ?thesis by (simp add: artist_of_def)
  next
    case (Cons x xs')
    with JArr assms show ?thesis
      by (cases x) (auto simp: artist_of_def dict_get_def split: option.splits if_splits)
  qed
qed (use assms in \<open>auto simp: artist_of_def split: if_splits\<close>)

lemma make_release_fields:
  assumes "make_release y r = Inr x"
  shows "\<exists>kv. r = JObj kv \<and> year x = y
       \<and> title x = dict_get kv ''title'' \<and> date x = dict_get kv ''date''
       \<and> artist x = (case dict_get kv ''artist-credit'' of
                        JArr (JObj d # _) \<Rightarrow> dict_get d ''name'' | _ \<Rightarrow> JNull)
       \<and> (url x = None \<longleftrightarrow> \<not> truthy (dict_get kv ''id''))
       \<and> (\<forall>s. dict_get kv ''id'' = JStr s \<longrightarrow> s \<noteq> [] \<longrightarrow>
             url x = Some (''https://musicbrainz.org/release/'' @ s))"
proof (cases r)
  case (JObj kv)
  let ?ac = "if truthy (dict_get kv ''artist-credit'') then dict_get kv ''artist-credit''
             else JArr []"
  from assms JObj obtain a u where
    a: "artist_of ?ac = Inr a" and u: "url_of (dict_get kv ''id'') = Inr u"
    and x: "x = \<lparr>year = y, title = dict_get kv ''title'', artist = a,
                 date = dict_get kv ''date'', url = u\<rparr>"
    by (auto simp: make_release_def Let_def split: sum.splits)
  from artist_of_cases[OF a] url_of_cases[OF u] x JObj show ?thesis by simp
qed (use assms in \<open>auto simp: make_release_def\<close>)

subsection \<open>Validation\<close>

lemma parse_years_field:
  "parse_years cy e ss es =
     (case field_year 1990 ss of
        None \<Rightarrow> (append_error e year_error_msg, 1990, cy)
      | Some sy \<Rightarrow>
          (case field_year cy es of
             None \<Rightarrow> (append_error e year_error_msg, 1990, cy)
           | Some ey \<Rightarrow> if ey < sy then (e, ey, sy) else (e, sy, ey)))"
  unfolding parse_years_def field_year_def year_error_msg_def ..

lemma parse_years_ok:
  "field_year 1990 ss = Some a \<Longrightarrow> field_year cy es = Some b \<Longrightarrow>
   parse_years cy e ss es = (if b < a then (e, b, a) else (e, a, b))"
  by (simp add: parse_years_field)

lemma parse_years_fail:
  "field_year 1990 ss = None \<or> field_year cy es = None \<Longrightarrow>
   parse_years cy e ss es = (append_error e year_error_msg, 1990, cy)"
  by (cases "field_year 1990 ss") (auto simp: parse_years_field)

lemma parse_date_invalid:
  "strptime dv = None \<Longrightarrow> parse_date dv = (Some invalid_date_msg, None, [])"
  by (simp add: parse_date_def invalid_date_msg_def)

lemma parse_date_valid:
  "strptime dv = Some (y, m, d) \<Longrightarrow> parse_date dv = (None, Some (drop 5 dv), strftime_B_d m d)"
  by (simp add: parse_date_def)

lemma truthy_append_error: "msg \<noteq> [] \<Longrightarrow> truthy_error (append_error e msg)"
  by (cases e) (auto simp: append_error_def truthy_error_def)

lemma has_substring_append: "has_substring t s \<Longrightarrow> has_substring t (p @ s)"
  by (induction p) auto

lemma fetch_years_error_kept:
  "fetch_years nt md ys acc err = (calls, Inr (rs, e)) \<Longrightarrow>
   \<forall>k\<in>set ys. \<exists>v. search_releases_for_date nt k md 50 = Inr v \<Longrightarrow> e = err"
proof (induction ys arbitrary: acc calls)
  case Nil
  then show ?case by simp
next
  case (Cons y ys)
  from Cons.prems(2) obtain releases where
    s: "search_releases_for_date nt y md 50 = Inr releases" by auto
  with Cons.prems(1) obtain items where it: "iter_json releases = Inr items"
    by (cases "iter_json releases") auto
  with s Cons.prems(1) obtain res' where res': "add_releases y items acc = Inr res'"
    by (cases "add_releases y items acc") auto
  from Cons.prems(1) s it res' obtain calls' where
    "fetch_years nt md ys res' err = (calls', Inr (rs, e))"
    by (auto split: prod.splits)
  from Cons.IH[OF this] Cons.prems(2) show ?case by simp
qed

lemma index_field_failure:
  assumes "req_method rq = POST"
    and "field_year 1990 (start_field rq) = None \<or> field_year (now_year ev) (end_field rq) = None"
    and "parse_date (date_field rq) = (e1, mm, pd)"
  shows "index ev rq =
     ([], Inr \<lparr>error = append_error e1 year_error_msg, results = None,
               date_value = date_field rq, start_year = 1990, end_year = now_year ev,
               pretty_date = pd, current_year = now_year ev\<rparr>)"
proof -
  have py: "parse_years (now_year ev) e1 (start_field rq) (end_field rq) =
      (append_error e1 year_error_msg, 1990, now_year ev)"
    using assms(2) by (rule parse_years_fail)
  have "truthy_error (append_error e1 year_error_msg)"
    by (rule truthy_append_error) (simp add: year_error_msg_def)
  from index_unfetched[OF assms(1,3) py this] show ?thesis .
qed

lemma clamp_years_small:
  "ey - sy + 1 \<le> MAX_YEARS_PER_REQUEST \<Longrightarrow> clamp_years cy e sy ey = (e, ey)"
  by (simp add: clamp_years_def)

lemma clamp_years_large:
  "ey - sy + 1 > MAX_YEARS_PER_REQUEST \<Longrightarrow>
   clamp_years cy e sy ey =
     (append_error e (clamp_msg (ey - sy + 1) sy (min (sy + MAX_YEARS_PER_REQUEST - 1) cy) cy),
      min (sy + MAX_YEARS_PER_REQUEST - 1) cy)"
  by (simp add: clamp_years_def Let_def min_def)

lemma field_year_None: "field_year dflt s = None \<longleftrightarrow> s \<noteq> [] \<and> py_int s = None"
  by (simp add: field_year_def)

lemma numbers_in_year_error: "has_substring ''numbers'' year_error_msg"
  unfolding year_error_msg_def by code_simp

lemma sort_results_sortable:
  "list_all sortable col \<Longrightarrow> sort_results col = Inr (sort_key release_key col)"
  by (simp add: sort_results_def)

lemma fetch_years_calls_shape:
  "fetch_years nt md ys acc err = (calls, out) \<Longrightarrow>
   \<forall>c\<in>set calls. \<exists>k\<in>set ys. c = search_params k md 50"
proof (induction ys arbitrary: acc calls)
  case Nil
  then show ?case by simp
next
  case (Cons y ys)
  show ?case
  proof (cases "search_releases_for_date nt y md 50")
    case (Inl f)
    with Cons.prems show ?thesis by (cases f) auto
  next
    case (Inr releases)
    show ?thesis
    proof (cases "iter_json releases")
      case (Inl a)
      with Inr Cons.prems show ?thesis by auto
    next
      case it: (Inr items)
      show ?thesis
      proof (cases "add_releases y items acc")
        case (Inl a)
        with Inr it Cons.prems show ?thesis by auto
      next
        case ar: (Inr res')
        from Cons.prems Inr it ar obtain calls' where
          c: "fetch_years nt md ys res' err = (calls', out)"
          "calls = search_params y md 50 # calls'"
          by (auto split: prod.splits)
        from Cons.IH[OF c(1)] c(2) show ?thesis by auto
      qed
    qed
  qed
qed

lemma index_valid_date:
  assumes "req_method rq = POST"
    and "strptime (date_field rq) = Some (y, m, d)"
    and "index ev rq = (calls, out)"
  shows "(\<forall>c\<in>set calls. \<exists>k. c = search_params k (drop 5 (date_field rq)) 50)
       \<and> (\<forall>pg. out = Inr pg \<longrightarrow>
             date_value pg = date_field rq \<and> pretty_date pg = strftime_B_d m d)"
proof -
  have pd: "parse_date (date_field rq) =
      (None, Some (drop 5 (date_field rq)), strftime_B_d m d)"
    using assms(2) by (rule parse_date_valid)
  obtain e2 sy ey where
    py: "parse_years (now_year ev) None (start_field rq) (end_field rq) = (e2, sy, ey)"
    by (cases "parse_years (now_year ev) None (start_field rq) (end_field rq)") auto
  show ?thesis
  proof (cases "truthy_error e2")
    case True
    from index_unfetched[OF assms(1) pd py True] assms(3) show ?thesis by auto
  next
    case False
    with py parse_years_None have e2: "e2 = None" by blast
    obtain e3 ey' where cl: "clamp_years (now_year ev) None sy ey = (e3, ey')"
      by (cases "clamp_years (now_year ev) None sy ey") auto
    obtain calls' out' where fy:
      "fetch_years (net ev) (drop 5 (date_field rq)) [sy..ey'] [] e3 = (calls', out')"
      by (cases "fetch_years (net ev) (drop 5 (date_field rq)) [sy..ey'] [] e3") auto
    from index_fetched[OF assms(1,2) py[unfolded e2] cl fy] assms(3)
    have c: "calls = calls'"
      and p: "\<forall>pg. out = Inr pg \<longrightarrow>
             date_value pg = date_field rq \<and> pretty_date pg = strftime_B_d m d"
      by (auto split: sum.splits prod.splits)
    from fetch_years_calls_shape[OF fy] c p show ?thesis by blast
  qed
qed

subsection \<open>The other inputs, evaluated\<close>

lemma wide_fields:
  "req_method wide_request = POST"
  "date_field wide_request = ''2019-11-22''"
  "start_field wide_request = ''1990''"
  "end_field wide_request = ''2020''"
  by (simp_all add: wide_request_def) code_simp+

lemma wide_years: "parse_years 2026 None ''1990'' ''2020'' = (None, 1990, 2020)"
  by code_simp

lemma wide_failure_msg:
  "failure_msg 1990 (HTTPError ''503 Server Error'') = ''HTTP error for year 1990: 503 Server Error''"
  by code_simp

lemma wide_no_warning:
  "\<not> has_substring ''Year range too large'' ''HTTP error for year 1990: 503 Server Error''"
  by code_simp

lemma wide_params:
  "search_params 1990 ''11-22'' 50 =
     [(''query'', ''date:1990-11-22''), (''fmt'', ''json''), (''limit'', ''50'')]"
  by code_simp

lemma bad_date_fields:
  "req_method bad_date_request = POST"
  "date_field bad_date_request = ''2019-02-30''"
  "start_field bad_date_request = ''1900''"
  "end_field bad_date_request = ''2000''"
  by (simp_all add: bad_date_request_def) code_simp+

lemma bad_date: "strptime ''2019-02-30'' = None"
  by code_simp

lemma bad_date_years: "parse_years 2026 e ''1900'' ''2000'' = (e, 1900, 2000)"
proof -
  have "field_year 1990 ''1900'' = Some 1900" "field_year 2026 ''2000'' = Some 2000"
    by code_simp+
  from parse_years_ok[OF this] show ?thesis by simp
qed

lemma quiet_env_fields: "now_year quiet_env = 2026" "net quiet_env = quiet_net"
  by (simp_all add: quiet_env_def)

lemma quiet_records: "records_of_year quiet_net md k = Some []"
  by (simp add: records_of_year_def search_releases_for_date_def quiet_net_def)

lemma quiet_collected: "collected quiet_net md ys = []"
  by (induction ys) (simp_all add: quiet_records)

lemma bad_year_fields:
  "req_method bad_year_request = POST"
  "date_field bad_year_request = ''2019-11-22''"
  "start_field bad_year_request = []"
  "end_field bad_year_request = ''abc''"
  by (simp_all add: bad_year_request_def) code_simp+

lemma abc_not_int: "py_int ''abc'' = None"
  by code_simp

lemma swapped_fields:
  "req_method swapped_request = POST"
  "date_field swapped_request = ''2019-11-22''"
  "start_field swapped_request = ''2020''"
  "end_field swapped_request = ''2018''"
  by (simp_all add: swapped_request_def) code_simp+

lemma swapped_years:
  "field_year 1990 ''2020'' = Some 2020" "field_year 2026 ''2018'' = Some 2018"
  by code_simp+

lemma swapped_index:
  "index example_env swapped_request =
     ([search_params 2018 ''11-22'' 50, search_params 2019 ''11-22'' 50,
       search_params 2020 ''11-22'' 50], Inr example_page)"
proof -
  have f: "fetch_years (net example_env) (drop 5 (date_field swapped_request)) [2018..2020] []
      None = ([search_params 2018 ''11-22'' 50, search_params 2019 ''11-22'' 50,
       search_params 2020 ''11-22'' 50],
      Inr ([record_2018, record_anon, record_2019],
           Some ''HTTP error for year 2020: 503 Server Error''))"
    by (simp only: example_env_fields swapped_fields example_range example_fetch drop_Suc_Cons
        drop_0 numeral_nat One_nat_def)
  have py: "parse_years (now_year example_env) None (start_field swapped_request)
      (end_field swapped_request) = (None, 2018, 2020)"
    using parse_years_ok[OF swapped_years, of None]
    by (simp add: example_env_fields swapped_fields)
  have st: "strptime (date_field swapped_request) = Some (2019, 11, 22)"
    by (simp add: swapped_fields example_date)
  have cl: "clamp_years (now_year example_env) None 2018 2020 = (None, 2020)"
    by (simp add: example_env_fields example_clamp)
  from index_fetched[OF swapped_fields(1) st py cl f]
  show ?thesis
    by (simp add: swapped_fields example_env_fields example_sort example_pretty
        example_page_def)
qed

lemma blank_fields:
  "req_method blank_request = POST"
  "date_field blank_request = ''2019-11-22''"
  "start_field blank_request = []"
  "end_field blank_request = []"
  by (simp_all add: blank_request_def) code_simp+

subsection \<open>When the page is rendered\<close>

text \<open>
  The view renders its page, rather than aborting, when the date and the years are valid and
  every year the loop visits yields its records, with keys that are strings: up to the year
  whose request fails, or over the whole range.
\<close>

lemma fetch_years_stops:
  assumes "\<forall>k\<in>set bs. records_of_year nt md k \<noteq> None"
    and "search_releases_for_date nt y md 50 = Inl f"
  shows "fetch_years nt md (bs @ y # as) acc err =
     (map (\<lambda>k. search_params k md 50) (bs @ [y]),
      Inr (acc @ collected nt md bs, Some (failure_msg y f)))"
  using assms(1)
proof (induction bs arbitrary: acc)
  case Nil
  show ?case using assms(2) by (cases f) (simp_all add: failure_msg_def)
next
  case (Cons b bs)
  from Cons.prems obtain rs where rs: "records_of_year nt md b = Some rs" by auto
  then obtain releases items where
    s: "search_releases_for_date nt b md 50 = Inr releases"
    and it: "iter_json releases = Inr items"
    and ar: "add_releases b items [] = Inr rs"
    by (auto simp: records_of_year_def split: sum.splits)
  from ar have "add_releases b items acc = Inr (acc @ rs)"
    using add_releases_acc[of b items acc "acc @ rs"] by simp
  with s it rs Cons.IH[of "acc @ rs"] Cons.prems show ?case by simp
qed

lemma page_rendered_after_failure:
  assumes "req_method rq = POST"
    and "strptime (date_field rq) = Some (y0, m, d)"
    and "parse_years (now_year ev) None (start_field rq) (end_field rq) = (None, sy, ey0)"
    and "clamp_years (now_year ev) None sy ey0 = (e3, ey)"
    and "sy \<le> y" and "y \<le> ey"
    and "\<forall>k\<in>set [sy..y - 1]. records_of_year (net ev) (drop 5 (date_field rq)) k \<noteq> None"
    and "search_releases_for_date (net ev) y (drop 5 (date_field rq)) 50 = Inl f"
    and "list_all sortable (collected (net ev) (drop 5 (date_field rq)) [sy..y - 1])"
  shows "index ev rq =
     (map (\<lambda>k. search_params k (drop 5 (date_field rq)) 50) [sy..y],
      Inr \<lparr>error = Some (failure_msg y f),
           results = Some (sort_key release_key
                             (collected (net ev) (drop 5 (date_field rq)) [sy..y - 1])),
           date_value = date_field rq, start_year = sy, end_year = ey,
           pretty_date = strftime_B_d m d, current_year = now_year ev\<rparr>)"
proof -
  let ?md = "drop 5 (date_field rq)"
  have split: "[sy..ey] = [sy..y - 1] @ y # [y + 1..ey]"
    using assms(5,6) by (rule upto_split3)
  have u: "[sy..y - 1] @ [y] = [sy..y]"
    using assms(5) by (simp add: upto_rec2)
  have fy: "fetch_years (net ev) ?md [sy..ey] [] e3 =
      (map (\<lambda>k. search_params k ?md 50) [sy..y],
       Inr (collected (net ev) ?md [sy..y - 1], Some (failure_msg y f)))"
    using fetch_years_stops[OF assms(7,8), of "[y + 1..ey]" "[]" e3] split u by simp
  from index_fetched[OF assms(1,2,3,4) fy] sort_results_sortable[OF assms(9)]
  show ?thesis by simp
qed

lemma page_rendered_after_success:
  assumes "req_method rq = POST"
    and "strptime (date_field rq) = Some (y0, m, d)"
    and "parse_years (now_year ev) None (start_field rq) (end_field rq) = (None, sy, ey0)"
    and "clamp_years (now_year ev) None sy ey0 = (e3, ey)"
    and "\<forall>k\<in>set [sy..ey]. records_of_year (net ev) (drop 5 (date_field rq)) k \<noteq> None"
    and "list_all sortable (collected (net ev) (drop 5 (date_field rq)) [sy..ey])"
  shows "index ev rq =
     (map (\<lambda>k. search_params k (drop 5 (date_field rq)) 50) [sy..ey],
      Inr \<lparr>error = e3,
           results = Some (sort_key release_key
                             (collected (net ev) (drop 5 (date_field rq)) [sy..ey])),
           date_value = date_field rq, start_year = sy, end_year = ey,
           pretty_date = strftime_B_d m d, current_year = now_year ev\<rparr>)"
proof -
  from fetch_years_calls_ok[OF assms(5), of "[]" e3]
  have fy: "fetch_years (net ev) (drop 5 (date_field rq)) [sy..ey] [] e3 =
      (map (\<lambda>k. search_params k (drop 5 (date_field rq)) 50) [sy..ey],
       Inr (collected (net ev) (drop 5 (date_field rq)) [sy..ey], e3))"
    by simp
  from index_fetched[OF assms(1,2,3,4) fy] sort_results_sortable[OF assms(6)]
  show ?thesis by simp
qed

section \<open>The claims\<close>

text \<open>
  C1. Take a submission whose loop ran and whose page was rendered, and a year \<open>y\<close> of the
  range whose request fails while the requests of the years before it succeed. Then the
  requests sent are those of the years from the start year to \<open>y\<close> and no other; every year
  before \<open>y\<close> contributed its records; the list shown is the sorted list of exactly those
  records; and the error is the message of the failure, which names \<open>y\<close> and carries the
  text of the exception.
\<close>

theorem failed_year_stops_loop:
  assumes "index ev rq = (calls, Inr pg)"
    and "results pg = Some rs"
    and "start_year pg \<le> y" and "y \<le> end_year pg"
    and "\<forall>k\<in>set [start_year pg..y - 1].
           \<exists>v. search_releases_for_date (net ev) k (drop 5 (date_value pg)) 50 = Inr v"
    and "search_releases_for_date (net ev) y (drop 5 (date_value pg)) 50 = Inl f"
  shows "calls = map (\<lambda>k. search_params k (drop 5 (date_value pg)) 50) [start_year pg..y]
       \<and> (\<forall>k\<in>set [start_year pg..y - 1].
             records_of_year (net ev) (drop 5 (date_value pg)) k \<noteq> None)
       \<and> rs = sort_key release_key
                (concat (map (year_records (net ev) (drop 5 (date_value pg)))
                           [start_year pg..y - 1]))
       \<and> mset rs = mset (concat (map (year_records (net ev) (drop 5 (date_value pg)))
                                   [start_year pg..y - 1]))
       \<and> error pg = Some (failure_msg y f)
       \<and> (\<exists>e. (f = HTTPError e \<and>
                 failure_msg y f = ''HTTP error for year '' @ py_str y @ '': '' @ e)
              \<or> (f = Exception e \<and>
                 failure_msg y f = ''Error for year '' @ py_str y @ '': '' @ e))"
proof -
  let ?md = "drop 5 (date_value pg)"
  from index_page_cases[OF assms(1,2)] obtain e3 col where
    dv: "date_value pg = date_field rq"
    and fy: "fetch_years (net ev) (drop 5 (date_field rq)) [start_year pg..end_year pg] [] e3
               = (calls, Inr (col, error pg))"
    and sr: "sort_results col = Inr rs"
    by blast
  have split: "[start_year pg..end_year pg] = [start_year pg..y - 1] @ y # [y + 1..end_year pg]"
    using assms(3,4) by (rule upto_split3)
  from fy have fy': "fetch_years (net ev) ?md ([start_year pg..y - 1] @ y # [y + 1..end_year pg])
      [] e3 = (calls, Inr (col, error pg))"
    by (simp add: dv split[symmetric])
  from fetch_years_first_failure[OF assms(5,6) fy']
  have c: "calls = map (\<lambda>k. search_params k ?md 50) ([start_year pg..y - 1] @ [y])"
    and col: "col = collected (net ev) ?md [start_year pg..y - 1]"
    and ok: "\<forall>k\<in>set [start_year pg..y - 1]. records_of_year (net ev) ?md k \<noteq> None"
    and e: "error pg = Some (failure_msg y f)"
    by auto
  have u: "[start_year pg..y - 1] @ [y] = [start_year pg..y]"
    using assms(3) by (simp add: upto_rec2)
  have col': "col = concat (map (year_records (net ev) ?md) [start_year pg..y - 1])"
    using col collected_all_ok[OF ok] by simp
  have rs: "rs = sort_key release_key col"
    using sort_results_Inr[OF sr] by simp
  have m: "\<exists>e. (f = HTTPError e \<and>
                 failure_msg y f = ''HTTP error for year '' @ py_str y @ '': '' @ e)
              \<or> (f = Exception e \<and>
                 failure_msg y f = ''Error for year '' @ py_str y @ '': '' @ e)"
    by (cases f) (auto simp: failure_msg_def http_error_msg_def other_error_msg_def)
  from c u ok rs col' e m show ?thesis by simp
qed

theorem failed_year_stops_loop_witness:
  "index example_env example_request =
     ([search_params 2018 ''11-22'' 50, search_params 2019 ''11-22'' 50,
       search_params 2020 ''11-22'' 50], Inr example_page)
   \<and> search_releases_for_date example_net 2020 ''11-22'' 50 = Inl (HTTPError ''503 Server Error'')
   \<and> mset [record_anon, record_2018, record_2019] =
       mset (concat (map (year_records example_net ''11-22'') [2018, 2019]))
   \<and> error example_page = Some (failure_msg 2020 (HTTPError ''503 Server Error''))"
proof -
  have s: "start_year example_page \<le> 2020" "2020 \<le> end_year example_page"
    by (simp_all add: example_page_fields)
  have ok: "\<forall>k\<in>set [start_year example_page..2020 - 1].
      \<exists>v. search_releases_for_date (net example_env) k (drop 5 (date_value example_page)) 50 = Inr v"
    by (simp add: example_page_fields example_env_fields example_range example_search)
  have f: "search_releases_for_date (net example_env) 2020 (drop 5 (date_value example_page)) 50
             = Inl (HTTPError ''503 Server Error'')"
    by (simp add: example_page_fields example_env_fields example_search)
  from failed_year_stops_loop[OF example_index example_page_fields(1) s ok f] example_index example_search(3)
  show ?thesis
    by (simp add: example_page_fields(2-4) example_env_fields example_range)
qed

text \<open>
  C6. The list on the page is in ascending order of the key made of the year, the artist
  and the title, where an absent artist or title counts as the empty string, which comes
  before every other string. Records with the same key stay in the order in which the loop
  collected them: year after year, and within a year in the order of the response.
\<close>

theorem results_sorted_stably:
  assumes "index ev rq = (calls, Inr pg)" and "results pg = Some rs"
  shows "sorted (map release_key rs)
       \<and> (\<forall>k. filter (\<lambda>x. release_key x = k) rs =
               filter (\<lambda>x. release_key x = k)
                 (collected (net ev) (drop 5 (date_value pg)) [start_year pg..end_year pg]))
       \<and> mset rs = mset (collected (net ev) (drop 5 (date_value pg))
                           [start_year pg..end_year pg])
       \<and> (\<forall>x\<in>set rs. \<exists>a t.
             release_key x = (year x, a, t)
           \<and> (artist x = JNull \<longrightarrow> a = []) \<and> (\<forall>s. artist x = JStr s \<longrightarrow> a = s)
           \<and> (title x = JNull \<longrightarrow> t = []) \<and> (\<forall>s. title x = JStr s \<longrightarrow> t = s))
       \<and> (\<forall>y a t t'. a \<noteq> [] \<longrightarrow> (y, [], t) < ((y, a, t') :: int \<times> string \<times> string))"
proof -
  let ?col = "collected (net ev) (drop 5 (date_value pg)) [start_year pg..end_year pg]"
  from index_page_cases[OF assms(1,2)] obtain e3 col where
    dv: "date_value pg = date_field rq"
    and fy: "fetch_years (net ev) (drop 5 (date_field rq)) [start_year pg..end_year pg] [] e3
               = (calls, Inr (col, error pg))"
    and sr: "sort_results col = Inr rs"
    by blast
  from fetch_years_collected[OF fy] dv have col: "col = ?col" by simp
  from sort_results_Inr[OF sr] col have rs: "rs = sort_key release_key ?col" by simp
  have 1: "sorted (map release_key rs)" by (simp add: rs)
  have 2: "\<forall>k. filter (\<lambda>x. release_key x = k) rs = filter (\<lambda>x. release_key x = k) ?col"
    by (simp add: rs sort_key_stable)
  have 3: "mset rs = mset ?col" by (simp add: rs)
  have 4: "\<forall>x\<in>set rs. \<exists>a t.
             release_key x = (year x, a, t)
           \<and> (artist x = JNull \<longrightarrow> a = []) \<and> (\<forall>s. artist x = JStr s \<longrightarrow> a = s)
           \<and> (title x = JNull \<longrightarrow> t = []) \<and> (\<forall>s. title x = JStr s \<longrightarrow> t = s)"
    by (auto simp: release_key_def or_empty_def)
  have 5: "\<forall>y a t t'. a \<noteq> [] \<longrightarrow> (y, [], t) < ((y, a, t') :: int \<times> string \<times> string)"
  proof (intro allI impI)
    fix y :: int and a t t' :: string
    assume "a \<noteq> []"
    then obtain c cs where "a = c # cs" by (cases a) auto
    then show "(y, [], t) < (y, a, t')" by simp
  qed
  show ?thesis
    using 1 2 3 4 5 by (intro conjI) assumption+
qed

theorem results_sorted_stably_witness:
  "index example_env example_request =
     ([search_params 2018 ''11-22'' 50, search_params 2019 ''11-22'' 50,
       search_params 2020 ''11-22'' 50], Inr example_page)
   \<and> results example_page = Some [record_anon, record_2018, record_2019]
   \<and> collected example_net ''11-22'' [2018, 2019, 2020] = [record_2018, record_anon, record_2019]
   \<and> sorted (map release_key [record_anon, record_2018, record_2019])
   \<and> (\<forall>k. filter (\<lambda>x. release_key x = k) [record_anon, record_2018, record_2019] =
           filter (\<lambda>x. release_key x = k) [record_2018, record_anon, record_2019])"
proof -
  have c: "collected example_net ''11-22'' [2018, 2019, 2020] =
             [record_2018, record_anon, record_2019]"
    by (simp add: records_of_year_def example_search example_records)
  from results_sorted_stably[OF example_index example_page_fields(1)] example_index example_page_fields(1) c
  show ?thesis
    by (simp add: example_page_fields(2-4) example_env_fields example_range)
qed

text \<open>
  C7. Every record on the page was built by the loop body from an entry of the response of
  a year \<open>y\<close> of the range. Its year is \<open>y\<close>, whatever the entry's date says; its title and
  date are the entry's \<open>title\<close> and \<open>date\<close> as they came (\<open>None\<close> when missing); its artist is
  the \<open>name\<close> of the first element of \<open>artist-credit\<close> when that is a non-empty list of
  objects, and \<open>None\<close> otherwise; its link is absent exactly when the entry has no \<open>id\<close> or
  an empty one, and is the release address followed by the \<open>id\<close> when that is a non-empty
  string.
\<close>

theorem record_fields_from_entry:
  assumes "index ev rq = (calls, Inr pg)" and "results pg = Some rs" and "x \<in> set rs"
  shows "\<exists>y releases items kv.
           start_year pg \<le> y \<and> y \<le> end_year pg
         \<and> search_releases_for_date (net ev) y (drop 5 (date_value pg)) 50 = Inr releases
         \<and> iter_json releases = Inr items \<and> JObj kv \<in> set items
         \<and> make_release y (JObj kv) = Inr x
         \<and> year x = y
         \<and> title x = dict_get kv ''title'' \<and> date x = dict_get kv ''date''
         \<and> artist x = (case dict_get kv ''artist-credit'' of
                          JArr (JObj d # _) \<Rightarrow> dict_get d ''name'' | _ \<Rightarrow> JNull)
         \<and> (url x = None \<longleftrightarrow> \<not> truthy (dict_get kv ''id''))
         \<and> (\<forall>s. dict_get kv ''id'' = JStr s \<longrightarrow> s \<noteq> [] \<longrightarrow>
               url x = Some (''https://musicbrainz.org/release/'' @ s))"
proof -
  let ?md = "drop 5 (date_value pg)"
  from index_page_cases[OF assms(1,2)] obtain e3 col where
    dv: "date_value pg = date_field rq"
    and fy: "fetch_years (net ev) (drop 5 (date_field rq)) [start_year pg..end_year pg] [] e3
               = (calls, Inr (col, error pg))"
    and sr: "sort_results col = Inr rs"
    by blast
  from fetch_years_collected[OF fy] dv
  have col: "col = collected (net ev) ?md [start_year pg..end_year pg]" by simp
  from sort_results_Inr[OF sr] assms(3) have "x \<in> set col" by simp
  with col collected_member obtain y where
    y: "y \<in> set [start_year pg..end_year pg]" "x \<in> set (year_records (net ev) ?md y)"
    by blast
  from year_records_member[OF y(2)] obtain releases items r where
    r: "search_releases_for_date (net ev) y ?md 50 = Inr releases"
    "iter_json releases = Inr items" "r \<in> set items" "make_release y r = Inr x"
    by blast
  from make_release_fields[OF r(4)] obtain kv where
    kv: "r = JObj kv \<and> year x = y
       \<and> title x = dict_get kv ''title'' \<and> date x = dict_get kv ''date''
       \<and> artist x = (case dict_get kv ''artist-credit'' of
                        JArr (JObj d # _) \<Rightarrow> dict_get d ''name'' | _ \<Rightarrow> JNull)
       \<and> (url x = None \<longleftrightarrow> \<not> truthy (dict_get kv ''id''))
       \<and> (\<forall>s. dict_get kv ''id'' = JStr s \<longrightarrow> s \<noteq> [] \<longrightarrow>
             url x = Some (''https://musicbrainz.org/release/'' @ s))"
    by (rule exE)
  then have kv1: "r = JObj kv" by (rule conjunct1)
  from y(1) have yr: "start_year pg \<le> y" "y \<le> end_year pg" by simp_all
  from r(3) kv1 have mem: "JObj kv \<in> set items" by simp
  from r(4) kv1 have mk: "make_release y (JObj kv) = Inr x" by simp
  show ?thesis
    apply (rule exI[of _ y], rule exI[of _ releases], rule exI[of _ items], rule exI[of _ kv])
    using yr r(1,2) mem mk kv[THEN conjunct2] by (intro conjI) (erule conjE | assumption)+
qed

theorem record_fields_from_entry_witness:
  "record_2018 \<in> set [record_anon, record_2018, record_2019]
   \<and> (\<exists>y releases items kv.
         2018 \<le> y \<and> y \<le> 2020
       \<and> search_releases_for_date example_net y ''11-22'' 50 = Inr releases
       \<and> iter_json releases = Inr items \<and> JObj kv \<in> set items
       \<and> make_release y (JObj kv) = Inr record_2018
       \<and> year record_2018 = y
       \<and> title record_2018 = dict_get kv ''title'' \<and> date record_2018 = dict_get kv ''date''
       \<and> artist record_2018 = (case dict_get kv ''artist-credit'' of
                          JArr (JObj d # _) \<Rightarrow> dict_get d ''name'' | _ \<Rightarrow> JNull)
       \<and> (url record_2018 = None \<longleftrightarrow> \<not> truthy (dict_get kv ''id''))
       \<and> (\<forall>s. dict_get kv ''id'' = JStr s \<longrightarrow> s \<noteq> [] \<longrightarrow>
             url record_2018 = Some (''https://musicbrainz.org/release/'' @ s)))"
proof -
  have m: "record_2018 \<in> set [record_anon, record_2018, record_2019]" by simp
  from record_fields_from_entry[OF example_index example_page_fields(1) m] m
  show ?thesis
    by (simp only: example_page_fields(2-4) example_env_fields simp_thms)
qed

text \<open>
  C2 as stated fails on a submission whose date is invalid: the years 1900 to 2000 span 101
  years, yet the end year stays 2000, the banner holds the date message only, and nothing
  is fetched.
\<close>

theorem clamp_skipped_on_invalid_date:
  "index example_env bad_date_request =
     ([], Inr \<lparr>error = Some ''Invalid date. Please use the date picker.'', results = None,
               date_value = ''2019-02-30'', start_year = 1900, end_year = 2000,
               pretty_date = [], current_year = 2026\<rparr>)
   \<and> (2000::int) - 1900 + 1 > MAX_YEARS_PER_REQUEST
   \<and> (2000::int) \<noteq> min (1900 + MAX_YEARS_PER_REQUEST - 1) 2026"
proof -
  have pd: "parse_date (date_field bad_date_request) = (Some invalid_date_msg, None, [])"
    by (simp add: bad_date_fields bad_date parse_date_invalid)
  have py: "parse_years (now_year example_env) (Some invalid_date_msg)
      (start_field bad_date_request) (end_field bad_date_request)
      = (Some invalid_date_msg, 1900, 2000)"
    by (simp add: example_env_fields bad_date_fields bad_date_years)
  have t: "truthy_error (Some invalid_date_msg)"
    by (simp add: truthy_error_def invalid_date_msg_def)
  from index_unfetched[OF bad_date_fields(1) pd py t] show ?thesis
    by (simp add: example_env_fields bad_date_fields invalid_date_msg_def
        MAX_YEARS_PER_REQUEST_def)
qed

text \<open>
  C2, as amended. Take a submission with no validation error: the date parses and each year
  field is blank or an integer, so that the years resolve to \<open>sy\<close> and \<open>ey\<close>. When
  \<open>ey - sy + 1\<close> exceeds 25, the end year becomes the smaller of \<open>sy + 24\<close> and the current
  year, the warning that names the span and the clamped range is recorded, and the loop runs
  over the clamped range. Every page the view renders shows the clamped range and a result
  list; the banner is the warning when every request of the range succeeds; and the page is
  rendered when every year of the range yields its records and their keys are strings.
\<close>

theorem oversized_span_is_clamped:
  assumes "req_method rq = POST"
    and "strptime (date_field rq) = Some (y, m, d)"
    and "parse_years (now_year ev) None (start_field rq) (end_field rq) = (None, sy, ey)"
    and "ey - sy + 1 > MAX_YEARS_PER_REQUEST"
    and "ey' = min (sy + MAX_YEARS_PER_REQUEST - 1) (now_year ev)"
    and "msg = clamp_msg (ey - sy + 1) sy ey' (now_year ev)"
    and "md = drop 5 (date_field rq)"
  shows "clamp_years (now_year ev) None sy ey = (Some msg, ey')
       \<and> fst (index ev rq) = fst (fetch_years (net ev) md [sy..ey'] [] (Some msg))
       \<and> (\<forall>calls pg. index ev rq = (calls, Inr pg) \<longrightarrow>
             start_year pg = sy \<and> end_year pg = ey' \<and> results pg \<noteq> None
           \<and> ((\<forall>k\<in>set [sy..ey']. \<exists>v. search_releases_for_date (net ev) k md 50 = Inr v)
                \<longrightarrow> error pg = Some msg))
       \<and> ((\<forall>k\<in>set [sy..ey']. records_of_year (net ev) md k \<noteq> None)
            \<and> list_all sortable (collected (net ev) md [sy..ey'])
          \<longrightarrow> index ev rq =
                (map (\<lambda>k. search_params k md 50) [sy..ey'],
                 Inr \<lparr>error = Some msg,
                      results = Some (sort_key release_key (collected (net ev) md [sy..ey'])),
                      date_value = date_field rq, start_year = sy, end_year = ey',
                      pretty_date = strftime_B_d m d, current_year = now_year ev\<rparr>))"
proof -
  have cl: "clamp_years (now_year ev) None sy ey = (Some msg, ey')"
    using clamp_years_large[OF assms(4), of "now_year ev" None] assms(5,6)
    by (simp add: append_error_def)
  obtain calls' out where fy:
    "fetch_years (net ev) (drop 5 (date_field rq)) [sy..ey'] [] (Some msg) = (calls', out)"
    by (cases "fetch_years (net ev) (drop 5 (date_field rq)) [sy..ey'] [] (Some msg)") auto
  note ix = index_fetched[OF assms(1,2,3) cl fy]
  have 2: "fst (index ev rq) = fst (fetch_years (net ev) md [sy..ey'] [] (Some msg))"
    using ix fy assms(7) by simp
  have 3: "start_year pg = sy \<and> end_year pg = ey' \<and> results pg \<noteq> None
           \<and> ((\<forall>k\<in>set [sy..ey']. \<exists>v. search_releases_for_date (net ev) k md 50 = Inr v)
                \<longrightarrow> error pg = Some msg)"
    if p: "index ev rq = (calls, Inr pg)" for calls pg
  proof -
    from ix p obtain col where
      out: "out = Inr (col, error pg)" and f: "start_year pg = sy" "end_year pg = ey'"
      "results pg \<noteq> None"
      by (auto split: sum.splits prod.splits)
    have "error pg = Some msg"
      if "\<forall>k\<in>set [sy..ey']. \<exists>v. search_releases_for_date (net ev) k md 50 = Inr v"
      using fetch_years_error_kept[OF fy[unfolded out]] that assms(7) by simp
    with f show ?thesis by simp
  qed
  have 4: "index ev rq =
                (map (\<lambda>k. search_params k md 50) [sy..ey'],
                 Inr \<lparr>error = Some msg,
                      results = Some (sort_key release_key (collected (net ev) md [sy..ey'])),
                      date_value = date_field rq, start_year = sy, end_year = ey',
                      pretty_date = strftime_B_d m d, current_year = now_year ev\<rparr>)"
    if ok: "\<forall>k\<in>set [sy..ey']. records_of_year (net ev) md k \<noteq> None"
      and so: "list_all sortable (collected (net ev) md [sy..ey'])"
  proof -
    from fetch_years_calls_ok[OF ok, of "[]" "Some msg"] fy assms(7)
    have "calls' = map (\<lambda>k. search_params k md 50) [sy..ey']"
      "out = Inr (collected (net ev) md [sy..ey'], Some msg)"
      by simp_all
    with ix sort_results_sortable[OF so] show ?thesis by simp
  qed
  from 3 have c3: "\<forall>calls pg. index ev rq = (calls, Inr pg) \<longrightarrow>
             start_year pg = sy \<and> end_year pg = ey' \<and> results pg \<noteq> None
           \<and> ((\<forall>k\<in>set [sy..ey']. \<exists>v. search_releases_for_date (net ev) k md 50 = Inr v)
                \<longrightarrow> error pg = Some msg)"
    by blast
  from 4 have c4: "(\<forall>k\<in>set [sy..ey']. records_of_year (net ev) md k \<noteq> None)
            \<and> list_all sortable (collected (net ev) md [sy..ey'])
          \<longrightarrow> index ev rq =
                (map (\<lambda>k. search_params k md 50) [sy..ey'],
                 Inr \<lparr>error = Some msg,
                      results = Some (sort_key release_key (collected (net ev) md [sy..ey'])),
                      date_value = date_field rq, start_year = sy, end_year = ey',
                      pretty_date = strftime_B_d m d, current_year = now_year ev\<rparr>)"
    by blast
  from cl 2 c3 c4 show ?thesis by (intro conjI) assumption+
qed

theorem oversized_span_is_clamped_witness:
  "index quiet_env wide_request =
     (map (\<lambda>k. search_params k ''11-22'' 50) [1990..2014],
      Inr \<lparr>error = Some (clamp_msg 31 1990 2014 2026), results = Some [],
           date_value = ''2019-11-22'', start_year = 1990, end_year = 2014,
           pretty_date = ''November 22'', current_year = 2026\<rparr>)
   \<and> clamp_years 2026 None 1990 2020 = (Some (clamp_msg 31 1990 2014 2026), 2014)"
proof -
  have 1: "strptime (date_field wide_request) = Some (2019, 11, 22)"
    by (simp add: wide_fields example_date)
  have 2: "parse_years (now_year quiet_env) None (start_field wide_request)
             (end_field wide_request) = (None, 1990, 2020)"
    by (simp add: quiet_env_fields wide_fields wide_years)
  have 3: "(2020::int) - 1990 + 1 > MAX_YEARS_PER_REQUEST"
    by (simp add: MAX_YEARS_PER_REQUEST_def)
  have 4: "(2014::int) = min (1990 + MAX_YEARS_PER_REQUEST - 1) (now_year quiet_env)"
    by (simp add: MAX_YEARS_PER_REQUEST_def quiet_env_fields)
  have 5: "clamp_msg 31 1990 2014 2026 = clamp_msg (2020 - 1990 + 1) 1990 2014 (now_year quiet_env)"
    by (simp add: quiet_env_fields)
  have 6: "''11-22'' = drop 5 (date_field wide_request)"
    by (simp add: wide_fields)
  from oversized_span_is_clamped[OF wide_fields(1) 1 2 3 4 5 6]
  show ?thesis
    by (simp add: quiet_env_fields quiet_records quiet_collected wide_fields example_pretty)
qed

text \<open>
  C3. The claim asks that a failed request be appended to the clamp warning. The loop assigns
  its message to \<open>error\<close> instead: when the range was clamped and the request of the first
  year fails, the banner is the failure message alone, and the warning recorded by the clamp
  is gone.
\<close>

theorem clamp_warning_lost_on_failure:
  assumes "req_method rq = POST"
    and "strptime (date_field rq) = Some (y, m, d)"
    and "parse_years (now_year ev) None (start_field rq) (end_field rq) = (None, sy, ey)"
    and "ey - sy + 1 > MAX_YEARS_PER_REQUEST"
    and "sy \<le> now_year ev"
    and "search_releases_for_date (net ev) sy (drop 5 (date_field rq)) 50 = Inl f"
  shows "clamp_years (now_year ev) None sy ey =
           (Some (clamp_msg (ey - sy + 1) sy (min (sy + MAX_YEARS_PER_REQUEST - 1) (now_year ev))
                    (now_year ev)),
            min (sy + MAX_YEARS_PER_REQUEST - 1) (now_year ev))
       \<and> index ev rq =
           ([search_params sy (drop 5 (date_field rq)) 50],
            Inr \<lparr>error = Some (failure_msg sy f), results = Some [],
                 date_value = date_field rq, start_year = sy,
                 end_year = min (sy + MAX_YEARS_PER_REQUEST - 1) (now_year ev),
                 pretty_date = strftime_B_d m d, current_year = now_year ev\<rparr>)"
proof -
  let ?ey = "min (sy + MAX_YEARS_PER_REQUEST - 1) (now_year ev)"
  let ?msg = "clamp_msg (ey - sy + 1) sy ?ey (now_year ev)"
  let ?md = "drop 5 (date_field rq)"
  have cl: "clamp_years (now_year ev) None sy ey = (Some ?msg, ?ey)"
    using clamp_years_large[OF assms(4), of "now_year ev" None] by (simp add: append_error_def)
  have "sy \<le> ?ey" using assms(5) by (simp add: MAX_YEARS_PER_REQUEST_def)
  then have r: "[sy..?ey] = sy # [sy + 1..?ey]" by (rule upto_rec1)
  have fy: "fetch_years (net ev) ?md [sy..?ey] [] (Some ?msg) =
      ([search_params sy ?md 50], Inr ([], Some (failure_msg sy f)))"
    unfolding r using assms(6) by (cases f) (simp_all add: failure_msg_def)
  have so: "sort_results [] = Inr []" by (simp add: sort_results_def)
  from index_fetched[OF assms(1,2,3) cl fy] so cl show ?thesis by simp
qed

theorem clamp_warning_lost_on_failure_witness:
  "clamp_years 2026 None 1990 2020 = (Some (clamp_msg 31 1990 2014 2026), 2014)
   \<and> index failing_env wide_request =
       ([[(''query'', ''date:1990-11-22''), (''fmt'', ''json''), (''limit'', ''50'')]],
        Inr \<lparr>error = Some ''HTTP error for year 1990: 503 Server Error'', results = Some [],
             date_value = ''2019-11-22'', start_year = 1990, end_year = 2014,
             pretty_date = ''November 22'', current_year = 2026\<rparr>)
   \<and> \<not> has_substring ''Year range too large'' ''HTTP error for year 1990: 503 Server Error''"
proof -
  have e: "now_year failing_env = 2026" "net failing_env = failing_net"
    by (simp_all add: failing_env_def)
  have 1: "strptime (date_field wide_request) = Some (2019, 11, 22)"
    by (simp add: wide_fields example_date)
  have 2: "parse_years (now_year failing_env) None (start_field wide_request)
             (end_field wide_request) = (None, 1990, 2020)"
    by (simp add: e wide_fields wide_years)
  have 3: "(2020::int) - 1990 + 1 > MAX_YEARS_PER_REQUEST"
    by (simp add: MAX_YEARS_PER_REQUEST_def)
  have 4: "1990 \<le> now_year failing_env" by (simp add: e)
  have 5: "search_releases_for_date (net failing_env) 1990 (drop 5 (date_field wide_request)) 50
             = Inl (HTTPError ''503 Server Error'')"
    by (simp add: e search_releases_for_date_def failing_net_def)
  from clamp_warning_lost_on_failure[OF wide_fields(1) 1 2 3 4 5] wide_no_warning
  show ?thesis
    by (simp add: e wide_fields wide_failure_msg wide_params example_pretty
        MAX_YEARS_PER_REQUEST_def)
qed

text \<open>
  C4. When the date field does not parse, the view sends no request, whatever the year
  fields hold: it renders a page without results, summary or table, whose banner is the
  invalid-date message, followed by the year message when a year field is not a number.
\<close>

theorem invalid_date_skips_fetch:
  assumes "req_method rq = POST" and "strptime (date_field rq) = None"
  shows "\<exists>pg. index ev rq = ([], Inr pg) \<and> results pg = None
            \<and> \<not> shows_summary pg \<and> \<not> shows_table pg \<and> shows_error pg
            \<and> (error pg = Some invalid_date_msg
               \<or> error pg = Some (invalid_date_msg @ '' | '' @ year_error_msg))"
proof -
  let ?cy = "now_year ev"
  have pd: "parse_date (date_field rq) = (Some invalid_date_msg, None, [])"
    using assms(2) by (rule parse_date_invalid)
  obtain e2 sy ey where
    py: "parse_years ?cy (Some invalid_date_msg) (start_field rq) (end_field rq) = (e2, sy, ey)"
    by (cases "parse_years ?cy (Some invalid_date_msg) (start_field rq) (end_field rq)") auto
  have t1: "truthy_error (Some invalid_date_msg)"
    by (simp add: truthy_error_def invalid_date_msg_def)
  have t: "truthy_error e2" using parse_years_truthy[OF py t1] .
  have e2: "e2 = Some invalid_date_msg \<or> e2 = Some (invalid_date_msg @ '' | '' @ year_error_msg)"
    using py
    by (auto simp: parse_years_field append_error_def invalid_date_msg_def
        split: option.splits if_splits)
  from index_unfetched[OF assms(1) pd py t] e2 t show ?thesis
    by (auto simp: shows_summary_def shows_table_def shows_error_def)
qed

theorem invalid_date_skips_fetch_witness:
  "req_method bad_date_request = POST \<and> strptime (date_field bad_date_request) = None
   \<and> (\<exists>pg. index example_env bad_date_request = ([], Inr pg) \<and> results pg = None
            \<and> \<not> shows_summary pg \<and> \<not> shows_table pg \<and> shows_error pg
            \<and> (error pg = Some invalid_date_msg
               \<or> error pg = Some (invalid_date_msg @ '' | '' @ year_error_msg)))"
proof -
  have 1: "strptime (date_field bad_date_request) = None"
    by (simp add: bad_date_fields bad_date)
  from invalid_date_skips_fetch[OF bad_date_fields(1) 1, of example_env] bad_date_fields(1) 1
  show ?thesis by (intro conjI) assumption+
qed

text \<open>
  C5. When a validation error was recorded (the date does not parse, or a year field that
  is not blank is not an integer), the view sends no request and renders a page with
  \<open>results\<close> unset, hence neither summary nor table. The years on the page are the resolved
  years, not clamped, and the banner is one of the three validation messages, never the
  clamp warning. With a valid date and a year field that is not a number, the years are
  1990 and the current year, however far apart, and the banner is the year message.
\<close>

theorem validation_error_suppresses_fetch:
  assumes "req_method rq = POST"
    and "strptime (date_field rq) = None
         \<or> field_year 1990 (start_field rq) = None
         \<or> field_year (now_year ev) (end_field rq) = None"
  shows "\<exists>pg. index ev rq = ([], Inr pg) \<and> results pg = None
            \<and> \<not> shows_summary pg \<and> \<not> shows_table pg
            \<and> (start_year pg, end_year pg) =
                 snd (parse_years (now_year ev) None (start_field rq) (end_field rq))
            \<and> (error pg = Some invalid_date_msg
               \<or> error pg = Some (invalid_date_msg @ '' | '' @ year_error_msg)
               \<or> error pg = Some year_error_msg)
            \<and> (if field_year 1990 (start_field rq) = None
                   \<or> field_year (now_year ev) (end_field rq) = None
                then start_year pg = 1990 \<and> end_year pg = now_year ev
                   \<and> (if strptime (date_field rq) = None
                       then error pg = Some (invalid_date_msg @ '' | '' @ year_error_msg)
                       else error pg = Some year_error_msg)
                else error pg = Some invalid_date_msg)"
proof (cases "field_year 1990 (start_field rq) = None
              \<or> field_year (now_year ev) (end_field rq) = None")
  case True
  obtain e1 mm pd where pd: "parse_date (date_field rq) = (e1, mm, pd)"
    by (cases "parse_date (date_field rq)") auto
  have e1: "e1 = (if strptime (date_field rq) = None then Some invalid_date_msg else None)"
    using pd parse_date_cases[of "date_field rq"] by (auto simp: invalid_date_msg_def)
  from index_field_failure[OF assms(1) True pd] True e1
    parse_years_fail[OF True, of None]
  show ?thesis
    by (auto simp: shows_summary_def shows_table_def append_error_def invalid_date_msg_def)
next
  case False
  then obtain a b where ab: "field_year 1990 (start_field rq) = Some a"
    "field_year (now_year ev) (end_field rq) = Some b" by auto
  from False assms(2) have st: "strptime (date_field rq) = None" by auto
  have pd: "parse_date (date_field rq) = (Some invalid_date_msg, None, [])"
    using st by (rule parse_date_invalid)
  have py: "parse_years (now_year ev) (Some invalid_date_msg) (start_field rq) (end_field rq)
      = (Some invalid_date_msg, if b < a then (b, a) else (a, b))"
    using parse_years_ok[OF ab, of "Some invalid_date_msg"] by simp
  have t: "truthy_error (Some invalid_date_msg)"
    by (simp add: truthy_error_def invalid_date_msg_def)
  have "index ev rq =
     ([], Inr \<lparr>error = Some invalid_date_msg, results = None,
               date_value = date_field rq, start_year = (if b < a then b else a),
               end_year = (if b < a then a else b),
               pretty_date = [], current_year = now_year ev\<rparr>)"
    by (cases "b < a") (use index_unfetched[OF assms(1) pd _ t] py in auto)
  with False parse_years_ok[OF ab, of None] show ?thesis
    by (auto simp: shows_summary_def shows_table_def)
qed

theorem validation_error_suppresses_fetch_witness:
  "strptime (date_field bad_year_request) = Some (2019, 11, 22)
   \<and> field_year 2026 (end_field bad_year_request) = None
   \<and> (\<exists>pg. index example_env bad_year_request = ([], Inr pg) \<and> results pg = None
          \<and> \<not> shows_summary pg \<and> \<not> shows_table pg
          \<and> start_year pg = 1990 \<and> end_year pg = 2026
          \<and> error pg = Some year_error_msg)
   \<and> (2026::int) - 1990 + 1 > MAX_YEARS_PER_REQUEST"
proof -
  have 1: "strptime (date_field bad_year_request) = Some (2019, 11, 22)"
    by (simp add: bad_year_fields example_date)
  have 2: "field_year 2026 (end_field bad_year_request) = None"
    by (simp add: bad_year_fields field_year_def abc_not_int)
  have h: "strptime (date_field bad_year_request) = None
         \<or> field_year 1990 (start_field bad_year_request) = None
         \<or> field_year (now_year example_env) (end_field bad_year_request) = None"
    using 2 by (simp add: example_env_fields)
  from validation_error_suppresses_fetch[OF bad_year_fields(1) h] 1 2
  show ?thesis
    by (auto simp: example_env_fields MAX_YEARS_PER_REQUEST_def)
qed

text \<open>
  C8. When both year fields yield integers (a blank field yields its default) and the end
  year is below the start year, the resolver returns them exchanged and leaves the error as
  it was. On the page the start year is the smaller value; the end year is the larger one
  unless the range was clamped; the banner holds the date message alone when the date is
  invalid, and nothing when the date is valid, the span is at most 25 and every request
  succeeds.
\<close>

theorem reversed_years_are_swapped:
  assumes "req_method rq = POST"
    and "field_year 1990 (start_field rq) = Some a"
    and "field_year (now_year ev) (end_field rq) = Some b"
    and "b < a"
  shows "parse_years (now_year ev) e (start_field rq) (end_field rq) = (e, b, a)
       \<and> (\<forall>calls pg. index ev rq = (calls, Inr pg) \<longrightarrow>
             start_year pg = b
           \<and> (a - b + 1 \<le> MAX_YEARS_PER_REQUEST \<or> results pg = None \<longrightarrow> end_year pg = a)
           \<and> (strptime (date_field rq) = None \<longrightarrow> error pg = Some invalid_date_msg)
           \<and> (strptime (date_field rq) \<noteq> None \<and> a - b + 1 \<le> MAX_YEARS_PER_REQUEST
               \<and> (\<forall>k\<in>set [b..a]. \<exists>v. search_releases_for_date (net ev) k
                                         (drop 5 (date_field rq)) 50 = Inr v)
               \<longrightarrow> error pg = None))"
proof (intro conjI allI impI)
  show py: "parse_years (now_year ev) e (start_field rq) (end_field rq) = (e, b, a)" for e
    using parse_years_ok[OF assms(2,3), of e] assms(4) by simp
  fix calls pg
  assume ix: "index ev rq = (calls, Inr pg)"
  have main: "start_year pg = b
      \<and> (a - b + 1 \<le> MAX_YEARS_PER_REQUEST \<or> results pg = None \<longrightarrow> end_year pg = a)
      \<and> (strptime (date_field rq) = None \<longrightarrow> error pg = Some invalid_date_msg)
      \<and> (strptime (date_field rq) \<noteq> None \<and> a - b + 1 \<le> MAX_YEARS_PER_REQUEST
               \<and> (\<forall>k\<in>set [b..a]. \<exists>v. search_releases_for_date (net ev) k
                                         (drop 5 (date_field rq)) 50 = Inr v)
               \<longrightarrow> error pg = None)"
  proof (cases "strptime (date_field rq)")
    case None
    have t: "truthy_error (Some invalid_date_msg)"
      by (simp add: truthy_error_def invalid_date_msg_def)
    from index_unfetched[OF assms(1) parse_date_invalid[OF None] py t] ix None
    show ?thesis by auto
  next
    case (Some ymd)
    obtain y m d where ymd: "strptime (date_field rq) = Some (y, m, d)"
      using Some by (cases ymd) auto
    obtain e3 ey' where cl: "clamp_years (now_year ev) None b a = (e3, ey')"
      by (cases "clamp_years (now_year ev) None b a") auto
    obtain calls' out where fy:
      "fetch_years (net ev) (drop 5 (date_field rq)) [b..ey'] [] e3 = (calls', out)"
      by (cases "fetch_years (net ev) (drop 5 (date_field rq)) [b..ey'] [] e3") auto
    from index_fetched[OF assms(1) ymd py cl fy] ix obtain col where
      out: "out = Inr (col, error pg)" and sy: "start_year pg = b" and ey: "end_year pg = ey'"
      and rs: "results pg \<noteq> None"
      by (auto split: sum.splits prod.splits)
    have small: "a - b + 1 \<le> MAX_YEARS_PER_REQUEST \<Longrightarrow> e3 = None \<and> ey' = a"
      using cl by (simp add: clamp_years_small)
    have "error pg = None"
      if "a - b + 1 \<le> MAX_YEARS_PER_REQUEST"
        and "\<forall>k\<in>set [b..a]. \<exists>v. search_releases_for_date (net ev) k
                                         (drop 5 (date_field rq)) 50 = Inr v"
      using fetch_years_error_kept[OF fy[unfolded out]] small[OF that(1)] that(2) by simp
    with sy ey rs small ymd show ?thesis by auto
  qed
  from main show "start_year pg = b" by simp
  from main show "end_year pg = a"
    if "a - b + 1 \<le> MAX_YEARS_PER_REQUEST \<or> results pg = None" using that by simp
  from main show "error pg = Some invalid_date_msg" if "strptime (date_field rq) = None"
    using that by simp
  from main show "error pg = None"
    if "strptime (date_field rq) \<noteq> None \<and> a - b + 1 \<le> MAX_YEARS_PER_REQUEST
               \<and> (\<forall>k\<in>set [b..a]. \<exists>v. search_releases_for_date (net ev) k
                                         (drop 5 (date_field rq)) 50 = Inr v)"
    using that by simp
qed

theorem reversed_years_are_swapped_witness:
  "field_year 1990 (start_field swapped_request) = Some 2020
   \<and> field_year 2026 (end_field swapped_request) = Some 2018
   \<and> parse_years 2026 None (start_field swapped_request) (end_field swapped_request)
       = (None, 2018, 2020)
   \<and> index example_env swapped_request =
       ([search_params 2018 ''11-22'' 50, search_params 2019 ''11-22'' 50,
         search_params 2020 ''11-22'' 50], Inr example_page)
   \<and> start_year example_page = 2018 \<and> end_year example_page = 2020"
proof -
  have 1: "field_year 1990 (start_field swapped_request) = Some 2020"
    and 2: "field_year (now_year example_env) (end_field swapped_request) = Some 2018"
    by (simp_all add: swapped_fields swapped_years example_env_fields)
  have 3: "(2018::int) < 2020" by simp
  from reversed_years_are_swapped[OF swapped_fields(1) 1 2 3, of None] swapped_index 1 2
  show ?thesis
    by (simp add: example_env_fields MAX_YEARS_PER_REQUEST_def)
qed

text \<open>
  C9. When the date field parses, the month-day key is the field without its first five
  characters, and the pretty date is the English name of the month, a space and the day
  written with two digits, a zero in front of a day below ten. Every request the view sends
  for such a submission asks for a year followed by that key, and every page it renders
  shows that pretty date.
\<close>

theorem date_key_and_pretty_date:
  assumes "strptime dv = Some (y, m, d)"
  shows "parse_date dv =
           (None, Some (drop 5 dv),
            month_names ! (m - 1) @ '' '' @
              (if d < 10 then CHR ''0'' # py_str (int d) else py_str (int d)))
       \<and> m - 1 < length month_names \<and> 1 \<le> m \<and> 1 \<le> d \<and> d \<le> 31
       \<and> (req_method rq = POST \<and> date_field rq = dv \<and> index ev rq = (calls, out) \<longrightarrow>
            (\<forall>c\<in>set calls. \<exists>k. c = search_params k (drop 5 dv) 50)
          \<and> (\<forall>pg. out = Inr pg \<longrightarrow>
                pretty_date pg =
                  month_names ! (m - 1) @ '' '' @
                    (if d < 10 then CHR ''0'' # py_str (int d) else py_str (int d))))"
proof -
  have pd: "strftime_B_d m d = month_names ! (m - 1) @ '' '' @
              (if d < 10 then CHR ''0'' # py_str (int d) else py_str (int d))"
    using strptime_range[OF assms] by (simp add: strftime_B_d_def two_digits_padded)
  have 1: "parse_date dv =
           (None, Some (drop 5 dv),
            month_names ! (m - 1) @ '' '' @
              (if d < 10 then CHR ''0'' # py_str (int d) else py_str (int d)))"
    using parse_date_valid[OF assms] pd by simp
  have 2: "m - 1 < length month_names \<and> 1 \<le> m \<and> 1 \<le> d \<and> d \<le> 31"
    using strptime_range[OF assms] by (auto simp: length_month_names)
  have 3: "(\<forall>c\<in>set calls. \<exists>k. c = search_params k (drop 5 dv) 50)
          \<and> (\<forall>pg. out = Inr pg \<longrightarrow>
                pretty_date pg =
                  month_names ! (m - 1) @ '' '' @
                    (if d < 10 then CHR ''0'' # py_str (int d) else py_str (int d)))"
    if h: "req_method rq = POST \<and> date_field rq = dv \<and> index ev rq = (calls, out)"
  proof -
    from h assms have a: "req_method rq = POST" "strptime (date_field rq) = Some (y, m, d)"
      "index ev rq = (calls, out)" by simp_all
    from index_valid_date[OF a] h pd show ?thesis by simp
  qed
  from 1 2 3 show ?thesis by blast
qed

theorem date_key_and_pretty_date_witness:
  "strptime ''2019-11-22'' = Some (2019, 11, 22)
   \<and> parse_date ''2019-11-22'' = (None, Some ''11-22'', ''November 22'')
   \<and> index example_env example_request =
       ([search_params 2018 ''11-22'' 50, search_params 2019 ''11-22'' 50,
         search_params 2020 ''11-22'' 50], Inr example_page)
   \<and> pretty_date example_page = ''November 22''"
proof -
  have h: "strptime ''2019-11-22'' = Some (2019, 11, 22)" by code_simp
  have m: "month_names ! 10 = ''November''" by code_simp
  have p: "py_str 22 = ''22''" by code_simp
  from date_key_and_pretty_date[OF h, of example_request example_env _ "Inr example_page"] h example_index
  show ?thesis by (simp add: m p example_fields)
qed

text \<open>
  C10. A blank start field counts as 1990 and a blank end field as the current year, and no
  error is added; the two values are then put in order, as for typed years. When a field
  that is not blank is not an integer, both years are reset to 1990 and the current year,
  the message, which contains the word \<open>numbers\<close>, is appended to the error, and the request
  is not aborted: the page is rendered with those years, the submitted date and no results.
\<close>

theorem year_defaults_and_reset:
  assumes "req_method rq = POST"
  shows "(\<forall>b. start_field rq = [] \<and> field_year (now_year ev) (end_field rq) = Some b \<longrightarrow>
            parse_years (now_year ev) e (start_field rq) (end_field rq)
              = (e, min 1990 b, max 1990 b))
       \<and> (\<forall>a. end_field rq = [] \<and> field_year 1990 (start_field rq) = Some a \<longrightarrow>
            parse_years (now_year ev) e (start_field rq) (end_field rq)
              = (e, min a (now_year ev), max a (now_year ev)))
       \<and> ((start_field rq \<noteq> [] \<and> py_int (start_field rq) = None)
           \<or> (end_field rq \<noteq> [] \<and> py_int (end_field rq) = None) \<longrightarrow>
            parse_years (now_year ev) e (start_field rq) (end_field rq)
              = (append_error e year_error_msg, 1990, now_year ev)
          \<and> (\<exists>msg. append_error e year_error_msg = Some msg \<and> has_substring ''numbers'' msg)
          \<and> (\<exists>pg pre. index ev rq = ([], Inr pg)
                \<and> start_year pg = 1990 \<and> end_year pg = now_year ev \<and> results pg = None
                \<and> date_value pg = date_field rq
                \<and> error pg = Some (pre @ year_error_msg)
                \<and> (pre = [] \<or> pre = invalid_date_msg @ '' | '')))"
proof (intro conjI allI impI)
  fix b
  assume "start_field rq = [] \<and> field_year (now_year ev) (end_field rq) = Some b"
  then have "field_year 1990 (start_field rq) = Some 1990"
    "field_year (now_year ev) (end_field rq) = Some b"
    by (simp_all add: field_year_def)
  from parse_years_ok[OF this, of e]
  show "parse_years (now_year ev) e (start_field rq) (end_field rq)
          = (e, min 1990 b, max 1990 b)"
    by (simp add: min_def max_def)
next
  fix a
  assume "end_field rq = [] \<and> field_year 1990 (start_field rq) = Some a"
  then have "field_year 1990 (start_field rq) = Some a"
    "field_year (now_year ev) (end_field rq) = Some (now_year ev)"
    by (simp_all add: field_year_def)
  from parse_years_ok[OF this, of e]
  show "parse_years (now_year ev) e (start_field rq) (end_field rq)
          = (e, min a (now_year ev), max a (now_year ev))"
    by (simp add: min_def max_def)
next
  assume "(start_field rq \<noteq> [] \<and> py_int (start_field rq) = None)
           \<or> (end_field rq \<noteq> [] \<and> py_int (end_field rq) = None)"
  then have f: "field_year 1990 (start_field rq) = None
                \<or> field_year (now_year ev) (end_field rq) = None"
    by (simp add: field_year_None)
  show "parse_years (now_year ev) e (start_field rq) (end_field rq)
          = (append_error e year_error_msg, 1990, now_year ev)"
    using f by (rule parse_years_fail)
  show "\<exists>msg. append_error e year_error_msg = Some msg \<and> has_substring ''numbers'' msg"
    using numbers_in_year_error has_substring_append[OF numbers_in_year_error]
    by (cases e) (auto simp: append_error_def)
  obtain e1 mm pd where pd: "parse_date (date_field rq) = (e1, mm, pd)"
    by (cases "parse_date (date_field rq)") auto
  have e1: "e1 = None \<or> e1 = Some invalid_date_msg"
    using pd parse_date_cases[of "date_field rq"] by (auto simp: invalid_date_msg_def)
  have ne: "invalid_date_msg \<noteq> []" by (simp add: invalid_date_msg_def)
  from e1 ne have "\<exists>pre. append_error e1 year_error_msg = Some (pre @ year_error_msg)
      \<and> (pre = [] \<or> pre = invalid_date_msg @ '' | '')"
    by (auto simp: append_error_def)
  with index_field_failure[OF assms f pd]
  show "\<exists>pg pre. index ev rq = ([], Inr pg)
                \<and> start_year pg = 1990 \<and> end_year pg = now_year ev \<and> results pg = None
                \<and> date_value pg = date_field rq
                \<and> error pg = Some (pre @ year_error_msg)
                \<and> (pre = [] \<or> pre = invalid_date_msg @ '' | '')"
    by auto
qed

theorem year_defaults_and_reset_witness:
  "parse_years 2026 None (start_field blank_request) (end_field blank_request)
     = (None, 1990, 2026)
   \<and> parse_years 2026 None (start_field bad_year_request) (end_field bad_year_request)
     = (Some year_error_msg, 1990, 2026)
   \<and> has_substring ''numbers'' year_error_msg
   \<and> (\<exists>pg. index example_env bad_year_request = ([], Inr pg)
          \<and> start_year pg = 1990 \<and> end_year pg = 2026 \<and> results pg = None
          \<and> date_value pg = ''2019-11-22'')"
proof -
  have b: "start_field blank_request = []
           \<and> field_year (now_year example_env) (end_field blank_request) = Some 2026"
    by (simp add: blank_fields field_year_def example_env_fields)
  have f: "(start_field bad_year_request \<noteq> [] \<and> py_int (start_field bad_year_request) = None)
         \<or> (end_field bad_year_request \<noteq> [] \<and> py_int (end_field bad_year_request) = None)"
    by (simp add: bad_year_fields abc_not_int)
  note t1 = year_defaults_and_reset[OF blank_fields(1), of example_env None]
  note t2 = year_defaults_and_reset[OF bad_year_fields(1), of example_env None]
  from t1 b have 1: "parse_years 2026 None (start_field blank_request) (end_field blank_request)
     = (None, 1990, 2026)"
    by (simp add: example_env_fields)
  from t2 f have 2: "parse_years 2026 None (start_field bad_year_request)
      (end_field bad_year_request) = (Some year_error_msg, 1990, 2026)"
    and 3: "\<exists>pg. index example_env bad_year_request = ([], Inr pg)
          \<and> start_year pg = 1990 \<and> end_year pg = 2026 \<and> results pg = None
          \<and> date_value pg = ''2019-11-22''"
    by (auto simp: example_env_fields append_error_def bad_year_fields)
  from 1 2 3 numbers_in_year_error show ?thesis by (intro conjI) assumption+
qed

end
